theory Spec2Isabelle
  imports Main
begin

section \<open>Query text: \<open>parseTransId\<close> and \<open>isWriteQuery\<close>\<close>

text \<open>
  Query texts are \<open>string\<close>s of ASCII characters and the no-break space (code
  \<open>0xA0\<close>). The classes \<open>\s\<close> and \<open>\d\<close> of the regular expression and the case
  folding of its \<open>i\<close> flag are written out on that alphabet; \<open>trim\<close> strips the same
  white space. Record identifiers are natural
  numbers: the rounding of \<open>parseInt\<close> on digit strings above \<open>2^53\<close> is left out.
\<close>

definition js_space :: "char \<Rightarrow> bool" where
  "js_space c =
     (c \<in> set [CHR '' '', CHR 0x09, CHR 0x0A, CHR 0x0B, CHR 0x0C, CHR 0x0D, CHR 0xA0])"

definition js_digit :: "char \<Rightarrow> bool" where
  "js_digit c = (c \<in> set ''0123456789'')"

definition upper_of :: "char \<Rightarrow> char" where
  "upper_of c =
     (case map_of (zip ''abcdefghijklmnopqrstuvwxyz'' ''ABCDEFGHIJKLMNOPQRSTUVWXYZ'') c of
        Some u \<Rightarrow> u
      | None \<Rightarrow> c)"

definition toUpperCase :: "string \<Rightarrow> string" where
  "toUpperCase s = map upper_of s"

definition trim :: "string \<Rightarrow> string" where
  "trim s = rev (dropWhile js_space (rev (dropWhile js_space s)))"

definition startsWith :: "string \<Rightarrow> string \<Rightarrow> bool" where
  "startsWith s p = (take (length p) s = p)"

definition digit_value :: "char \<Rightarrow> nat" where
  "digit_value c =
     (case map_of (zip ''0123456789'' [0, 1, 2, 3, 4, 5, 6, 7, 8, 9]) c of
        Some d \<Rightarrow> d
      | None \<Rightarrow> 0)"

text \<open>\<open>parseInt(digits, 10)\<close> on a non-empty run of decimal digits.\<close>

definition parseInt10 :: "string \<Rightarrow> nat" where
  "parseInt10 ds = foldl (\<lambda>n c. 10 * n + digit_value c) 0 ds"

text \<open>A literal of the pattern under the \<open>i\<close> flag; the result is the unread input.\<close>

fun match_literal :: "string \<Rightarrow> string \<Rightarrow> string option" where
  "match_literal [] s = Some s"
| "match_literal (p # ps) [] = None"
| "match_literal (p # ps) (c # cs) =
     (if upper_of c = upper_of p then match_literal ps cs else None)"

text \<open>
  \<open>/WHERE\s+trans_id\s*=\s*(\d+)/i\<close> anchored at the head of the input. No white-space
  character can start the piece that follows a \<open>\s\<close> run, and no digit follows the
  greedy \<open>\d+\<close> inside the match, so taking each run whole loses no match.
\<close>

definition match_here :: "string \<Rightarrow> string option" where
  "match_here s =
     (case match_literal ''WHERE'' s of
        None \<Rightarrow> None
      | Some r1 \<Rightarrow>
          if takeWhile js_space r1 = [] then None
          else (case match_literal ''trans_id'' (dropWhile js_space r1) of
                  None \<Rightarrow> None
                | Some r2 \<Rightarrow>
                    (case match_literal ''='' (dropWhile js_space r2) of
                       None \<Rightarrow> None
                     | Some r3 \<Rightarrow>
                         let ds = takeWhile js_digit (dropWhile js_space r3)
                         in if ds = [] then None else Some ds)))"

text \<open>\<open>RegExp.prototype.exec\<close>: the leftmost position where the pattern matches.\<close>

fun regex_exec :: "string \<Rightarrow> string option" where
  "regex_exec [] = match_here []"
| "regex_exec (c # cs) =
     (case match_here (c # cs) of
        Some ds \<Rightarrow> Some ds
      | None \<Rightarrow> regex_exec cs)"

text \<open>\<open>None\<close> is JavaScript's \<open>null\<close>.\<close>

definition parseTransId :: "string \<Rightarrow> nat option" where
  "parseTransId query =
     (case regex_exec query of
        Some ds \<Rightarrow> Some (parseInt10 ds)
      | None \<Rightarrow> None)"

text \<open>The truth value of \<open>transId\<close> in a condition: \<open>null\<close> and \<open>0\<close> are false.\<close>

definition truthy :: "nat option \<Rightarrow> bool" where
  "truthy transId = (case transId of None \<Rightarrow> False | Some k \<Rightarrow> k \<noteq> 0)"

definition isWriteQuery :: "string \<Rightarrow> bool" where
  "isWriteQuery query =
     (let upper = toUpperCase (trim query)
      in startsWith upper ''UPDATE'' \<or> startsWith upper ''INSERT'' \<or> startsWith upper ''DELETE'')"


section \<open>Data model\<close>

text \<open>
  A JavaScript \<open>Date\<close>: its time value in milliseconds since the epoch, or the
  \<open>Invalid Date\<close> whose time value is \<open>NaN\<close>.
\<close>

datatype js_date = TimeValue int | InvalidDate

text \<open>\<open>new Date('1997-01-01T00:00:00Z')\<close>\<close>

definition FRAG_BOUNDARY :: js_date where
  "FRAG_BOUNDARY = TimeValue 852076800000"

text \<open>\<open>a < b\<close> on two dates compares the time values; a comparison with \<open>NaN\<close> is false.\<close>

fun date_less :: "js_date \<Rightarrow> js_date \<Rightarrow> bool" where
  "date_less (TimeValue a) (TimeValue b) = (a < b)"
| "date_less _ _ = False"

datatype status = Pending | Replicated | Failed

text \<open>A replication entry. \<open>entry_id\<close> is the field \<open>id\<close>; an absent field is \<open>None\<close>.\<close>

record entry =
  entry_id :: nat
  source :: string
  target :: string
  query :: string
  status :: status
  error :: "string option"
  time :: int
  recoveryTime :: "int option"

type_synonym rows = "string list"

text \<open>
  The MySQL server behind \<open>pools[node]\<close>. The engine itself is outside the program, so
  its behaviour is a parameter: \<open>refuse k\<close> is the message with which the \<open>k\<close>-th
  \<open>getConnection()\<close> rejects, \<open>answer k stmt\<close> what \<open>conn.query(stmt)\<close> gives on
  that connection (\<open>Inl\<close> the message of the exception), \<open>newdates k id\<close> the
  \<open>newdate\<close> column of the rows selected for \<open>trans_id = id\<close>, each already a
  \<open>Date\<close>. \<open>calls\<close> counts the connections requested and \<open>sent\<close> lists the
  statements passed to \<open>conn.query\<close>, oldest first.
\<close>

record store =
  refuse :: "nat \<Rightarrow> string option"
  answer :: "nat \<Rightarrow> string \<Rightarrow> string + rows"
  newdates :: "nat \<Rightarrow> nat \<Rightarrow> string + js_date list"
  calls :: nat
  sent :: "string list"

text \<open>An active write marker \<open>{ node, startTime }\<close>.\<close>

record marker =
  owner :: string
  startTime :: int

text \<open>What an operation fails with; the source distinguishes them by message only.\<close>

datatype failure =
    LockTimeout nat
  | ReadTimeout string
  | StoreError string

record log_entry =
  log_transactionId :: nat
  log_node :: string
  log_query :: string
  log_isolationLevel :: string
  log_startTime :: int
  log_status :: string
  log_endTime :: "int option"
  log_results :: "rows option"
  log_error :: "failure option"
  log_replication :: "(string \<times> status) list option"

record node_status =
  ns_status :: string
  lastCheck :: "int option"
  ns_error :: "string option"
  failureTime :: "int option"

text \<open>
  The module-level variables, the three stores, the clock read by \<open>Date.now()\<close> and
  \<open>new Date()\<close>, and the supply of fresh identifiers behind \<open>uuidv4()\<close>.
\<close>

record server =
  simulatedFailures :: "string \<Rightarrow> bool"
  nodeStatus :: "string \<Rightarrow> node_status"
  replicationQueue :: "entry list"
  transactionLog :: "log_entry list"
  activeTransactions :: "nat \<rightharpoonup> marker"
  pools :: "string \<Rightarrow> store"
  now :: int
  uuids :: nat

definition node_names :: "string list" where
  "node_names = [''node0'', ''node1'', ''node2'']"

text \<open>
  \<open>pools[node]\<close> and \<open>nodeStatus[node]\<close> are defined for the three node names. A
  request names its node by a string; the property names that every JavaScript object
  inherits (\<open>constructor\<close> and the like) are not considered as node names.
\<close>

definition known_node :: "string \<Rightarrow> bool" where
  "known_node node = (node \<in> set node_names)"

definition TRANSACTION_TIMEOUT :: int where
  "TRANSACTION_TIMEOUT = 5000"

definition uuidv4 :: "server \<Rightarrow> nat \<times> server" where
  "uuidv4 s = (uuids s, s\<lparr>uuids := Suc (uuids s)\<rparr>)"


section \<open>Store access\<close>

text \<open>\<open>await pools[node].getConnection()\<close>: \<open>Some msg\<close> when it rejects.\<close>

definition getConnection :: "string \<Rightarrow> server \<Rightarrow> string option \<times> server" where
  "getConnection node s =
     (let st = pools s node
      in (refuse st (calls st),
          s\<lparr>pools := (pools s)(node := st\<lparr>calls := Suc (calls st)\<rparr>)\<rparr>))"

text \<open>\<open>await conn.query(stmt)\<close> on a connection of \<open>node\<close>.\<close>

definition conn_query :: "string \<Rightarrow> string \<Rightarrow> server \<Rightarrow> (string + rows) \<times> server" where
  "conn_query node stmt s =
     (let st = pools s node
      in (answer st (calls st) stmt,
          s\<lparr>pools := (pools s)(node := st\<lparr>sent := sent st @ [stmt]\<rparr>)\<rparr>))"

text \<open>\<open>await conn.query('SELECT newdate FROM trans WHERE trans_id = ?', [transId])\<close>\<close>

definition select_newdate :: "string \<Rightarrow> nat \<Rightarrow> server \<Rightarrow> (string + js_date list) \<times> server" where
  "select_newdate node transId s =
     (let st = pools s node
      in (newdates st (calls st) transId,
          s\<lparr>pools := (pools s)(node :=
               st\<lparr>sent := sent st @ [''SELECT newdate FROM trans WHERE trans_id = ?'']\<rparr>)\<rparr>))"


section \<open>Replication engine: \<open>replicateWrite\<close>\<close>

text \<open>
  The block that reads the record's date back from the source node. Every exception
  in it is caught and leaves \<open>recordDate\<close> at \<open>null\<close>.
\<close>

definition fetch_record_date :: "string \<Rightarrow> nat option \<Rightarrow> server \<Rightarrow> js_date option \<times> server" where
  "fetch_record_date sourceNode transId s =
     (if truthy transId then
        (case getConnection sourceNode s of
           (Some e, s1) \<Rightarrow> (None, s1)
         | (None, s1) \<Rightarrow>
             (case select_newdate sourceNode (the transId) s1 of
                (Inl e, s2) \<Rightarrow> (None, s2)
              | (Inr [], s2) \<Rightarrow> (None, s2)
              | (Inr (d # ds), s2) \<Rightarrow> (Some d, s2)))
      else (None, s))"

text \<open>The target nodes, from the fragmentation rule.\<close>

definition replication_targets :: "string \<Rightarrow> js_date option \<Rightarrow> string list" where
  "replication_targets sourceNode recordDate =
     (if sourceNode = ''node0'' then
        (case recordDate of
           Some d \<Rightarrow> [if date_less d FRAG_BOUNDARY then ''node1'' else ''node2'']
         | None \<Rightarrow> [''node1'', ''node2''])
      else [''node0''])"

text \<open>
  One round of the loop over the targets: the entry it builds, and the state with the
  entry pushed on \<open>replicationQueue\<close>.
\<close>

definition replicate_to :: "string \<Rightarrow> string \<Rightarrow> string \<Rightarrow> server \<Rightarrow> entry \<times> server" where
  "replicate_to sourceNode qry tgt s =
     (if simulatedFailures s tgt then
        (case uuidv4 s of (i, s1) \<Rightarrow>
           let e = \<lparr>entry_id = i, source = sourceNode, target = tgt, query = qry,
                    status = Failed,
                    error = Some (''Node '' @ tgt @ '' is offline (simulated failure)''),
                    time = now s1, recoveryTime = None\<rparr>
           in (e, s1\<lparr>replicationQueue := replicationQueue s1 @ [e]\<rparr>))
      else
        (case uuidv4 s of (i, s1) \<Rightarrow>
           let e = \<lparr>entry_id = i, source = sourceNode, target = tgt, query = qry,
                    status = Pending, error = None, time = now s1, recoveryTime = None\<rparr>
           in (case getConnection tgt s1 of
                 (Some msg, s2) \<Rightarrow>
                   let e' = e\<lparr>status := Failed, error := Some msg\<rparr>
                   in (e', s2\<lparr>replicationQueue := replicationQueue s2 @ [e']\<rparr>)
               | (None, s2) \<Rightarrow>
                   (case conn_query tgt qry s2 of
                      (Inl msg, s3) \<Rightarrow>
                        let e' = e\<lparr>status := Failed, error := Some msg\<rparr>
                        in (e', s3\<lparr>replicationQueue := replicationQueue s3 @ [e']\<rparr>)
                    | (Inr r, s3) \<Rightarrow>
                        let e' = e\<lparr>status := Replicated\<rparr>
                        in (e', s3\<lparr>replicationQueue := replicationQueue s3 @ [e']\<rparr>)))))"

fun replicate_targets :: "string \<Rightarrow> string \<Rightarrow> string list \<Rightarrow> server \<Rightarrow> entry list \<times> server" where
  "replicate_targets sourceNode qry [] s = ([], s)"
| "replicate_targets sourceNode qry (tgt # tgts) s =
     (case replicate_to sourceNode qry tgt s of
        (e, s1) \<Rightarrow>
          (case replicate_targets sourceNode qry tgts s1 of
             (es, s2) \<Rightarrow> (e # es, s2)))"

definition replicateWrite :: "string \<Rightarrow> string \<Rightarrow> server \<Rightarrow> entry list \<times> server" where
  "replicateWrite sourceNode qry s =
     (let upper = toUpperCase (trim qry)
      in if \<not> startsWith upper ''UPDATE'' \<and> \<not> startsWith upper ''INSERT''
            \<and> \<not> startsWith upper ''DELETE''
         then ([], s)
         else (case fetch_record_date sourceNode (parseTransId qry) s of
                 (recordDate, s1) \<Rightarrow>
                   replicate_targets sourceNode qry
                     (replication_targets sourceNode recordDate) s1))"


section \<open>Waiting on an active write marker\<close>

text \<open>
  One request is followed from start to end. While it is suspended in
  \<open>await new Promise(resolve => setTimeout(resolve, 50))\<close> the other requests run:
  a \<open>tick\<close> says by how much the timer fired late and what the others did to
  \<open>activeTransactions\<close> meanwhile. A timer of 50 ms fires no earlier than 50 ms after
  it was set and the clock does not run backwards. The \<open>n\<close>-th suspension of the
  request takes \<open>sched n\<close>. The other awaits of a request are taken without
  interference and in no time.
\<close>

record tick =
  late :: nat
  others :: "(nat \<rightharpoonup> marker) \<Rightarrow> (nat \<rightharpoonup> marker)"

type_synonym schedule = "nat \<Rightarrow> tick"

definition sleep :: "tick \<Rightarrow> server \<Rightarrow> server" where
  "sleep t s =
     s\<lparr>now := now s + 50 + int (late t),
       activeTransactions := others t (activeTransactions s)\<rparr>"

text \<open>
  The \<open>while\<close> loop of \<open>startTransaction\<close>; \<open>n\<close> counts the suspensions so far and
  is returned with the outcome.
\<close>

function startTransaction_wait ::
  "schedule \<Rightarrow> nat \<Rightarrow> int \<Rightarrow> nat \<Rightarrow> server \<Rightarrow> (failure + unit) \<times> nat \<times> server" where
  "startTransaction_wait sched transId startWait n s =
     (if activeTransactions s transId \<noteq> None then
        (if now s - startWait > TRANSACTION_TIMEOUT then (Inl (LockTimeout transId), n, s)
         else startTransaction_wait sched transId startWait (Suc n) (sleep (sched n) s))
      else (Inr (), n, s))"
  by pat_completeness auto
termination
  by (relation "measure (\<lambda>(sched, transId, startWait, n, s).
                   nat (TRANSACTION_TIMEOUT + 1 - (now s - startWait)))")
     (auto simp: sleep_def TRANSACTION_TIMEOUT_def)

declare startTransaction_wait.simps [simp del]

definition startTransaction ::
  "schedule \<Rightarrow> nat option \<Rightarrow> string \<Rightarrow> server \<Rightarrow> (failure + unit) \<times> nat \<times> server" where
  "startTransaction sched transId node s =
     (if \<not> truthy transId then (Inr (), 0, s)
      else
        let k = the transId
        in if activeTransactions s k \<noteq> None then
             (case startTransaction_wait sched k (now s) 0 s of
                (Inl f, n, s1) \<Rightarrow> (Inl f, n, s1)
              | (Inr u, n, s1) \<Rightarrow>
                  (Inr (), n,
                   s1\<lparr>activeTransactions :=
                        (activeTransactions s1)(k \<mapsto> \<lparr>owner = node, startTime = now s1\<rparr>)\<rparr>))
           else
             (Inr (), 0,
              s\<lparr>activeTransactions :=
                   (activeTransactions s)(k \<mapsto> \<lparr>owner = node, startTime = now s\<rparr>)\<rparr>))"

text \<open>The \<open>while\<close> loop of \<open>canReadProceed\<close>.\<close>

function canReadProceed_wait ::
  "schedule \<Rightarrow> nat \<Rightarrow> string \<Rightarrow> int \<Rightarrow> nat \<Rightarrow> server \<Rightarrow> (failure + bool) \<times> nat \<times> server" where
  "canReadProceed_wait sched transId isolationLevel startWait n s =
     (if activeTransactions s transId \<noteq> None then
        (if now s - startWait > TRANSACTION_TIMEOUT then (Inl (ReadTimeout isolationLevel), n, s)
         else canReadProceed_wait sched transId isolationLevel startWait (Suc n)
                (sleep (sched n) s))
      else (Inr True, n, s))"
  by pat_completeness auto
termination
  by (relation "measure (\<lambda>(sched, transId, isolationLevel, startWait, n, s).
                   nat (TRANSACTION_TIMEOUT + 1 - (now s - startWait)))")
     (auto simp: sleep_def TRANSACTION_TIMEOUT_def)

declare canReadProceed_wait.simps [simp del]

definition canReadProceed ::
  "schedule \<Rightarrow> nat option \<Rightarrow> string \<Rightarrow> server \<Rightarrow> (failure + bool) \<times> nat \<times> server" where
  "canReadProceed sched transId isolationLevel s =
     (if \<not> truthy transId \<or> activeTransactions s (the transId) = None then (Inr True, 0, s)
      else if isolationLevel = ''READ_UNCOMMITTED'' then (Inr True, 0, s)
      else canReadProceed_wait sched (the transId) isolationLevel (now s) 0 s)"

definition commitTransaction :: "nat option \<Rightarrow> server \<Rightarrow> server" where
  "commitTransaction transId s =
     (if truthy transId \<and> activeTransactions s (the transId) \<noteq> None
      then s\<lparr>activeTransactions := (activeTransactions s)(the transId := None)\<rparr>
      else s)"


section \<open>Replay: \<open>replayFailedReplications\<close> and the recovery handler\<close>

record replay_detail =
  detail_id :: nat
  detail_query :: string
  detail_status :: string
  detail_error :: "string option"

text \<open>The object \<open>results\<close>: \<open>total\<close>, \<open>success\<close>, \<open>failed\<close> and \<open>details\<close>.\<close>

record replay_results =
  r_total :: nat
  r_success :: nat
  r_failed :: nat
  r_details :: "replay_detail list"

text \<open>
  \<open>replicationQueue.filter(...)\<close> gives the selected entry objects themselves, not
  copies: they are named here by their positions in the queue, in queue order.
\<close>

definition failedReplications :: "string \<Rightarrow> entry list \<Rightarrow> nat list" where
  "failedReplications recoveredNode q =
     filter (\<lambda>i. target (q ! i) = recoveredNode \<and> status (q ! i) = Failed) [0..<length q]"

text \<open>
  One round of the loop over the selected entries: the entry at position \<open>i\<close> is
  replayed. Only the \<open>try\<close> branch writes to the entry; the \<open>catch\<close> branch counts
  and reports the failure.
\<close>

definition replay_entry :: "string \<Rightarrow> nat \<Rightarrow> replay_results \<Rightarrow> server \<Rightarrow> replay_results \<times> server" where
  "replay_entry recoveredNode i res s =
     (let e = replicationQueue s ! i
      in case getConnection recoveredNode s of
           (Some msg, s1) \<Rightarrow>
             (res\<lparr>r_failed := Suc (r_failed res),
                  r_details := r_details res @
                    [\<lparr>detail_id = entry_id e, detail_query = take 100 (query e),
                      detail_status = ''failed'', detail_error = Some msg\<rparr>]\<rparr>,
              s1)
         | (None, s1) \<Rightarrow>
             (case conn_query recoveredNode (query e) s1 of
                (Inl msg, s2) \<Rightarrow>
                  (res\<lparr>r_failed := Suc (r_failed res),
                       r_details := r_details res @
                         [\<lparr>detail_id = entry_id e, detail_query = take 100 (query e),
                           detail_status = ''failed'', detail_error = Some msg\<rparr>]\<rparr>,
                   s2)
              | (Inr r, s2) \<Rightarrow>
                  (res\<lparr>r_success := Suc (r_success res),
                       r_details := r_details res @
                         [\<lparr>detail_id = entry_id e, detail_query = take 100 (query e),
                           detail_status = ''success'', detail_error = None\<rparr>]\<rparr>,
                   s2\<lparr>replicationQueue := (replicationQueue s2)
                        [i := e\<lparr>status := Replicated, recoveryTime := Some (now s2),
                                 error := None\<rparr>]\<rparr>)))"

fun replay_loop :: "string \<Rightarrow> nat list \<Rightarrow> replay_results \<Rightarrow> server \<Rightarrow> replay_results \<times> server" where
  "replay_loop recoveredNode [] res s = (res, s)"
| "replay_loop recoveredNode (i # rest) res s =
     (case replay_entry recoveredNode i res s of
        (res1, s1) \<Rightarrow> replay_loop recoveredNode rest res1 s1)"

definition replayFailedReplications :: "string \<Rightarrow> server \<Rightarrow> replay_results \<times> server" where
  "replayFailedReplications recoveredNode s =
     (let sel = failedReplications recoveredNode (replicationQueue s)
      in replay_loop recoveredNode sel
           \<lparr>r_total = length sel, r_success = 0, r_failed = 0, r_details = []\<rparr> s)"






section \<open>The handler of \<open>POST /api/query/execute\<close>\<close>

datatype response =
    Invalid_node
  | Node_offline string nat
  | Succeeded nat rows "(string \<times> status) list" log_entry
  | Errored nat failure log_entry

text \<open>
  The \<open>try\<close> block up to and including the call of \<open>replicateWrite\<close>: \<open>Inl\<close> is the
  exception that leaves it, with the state at the throw.
\<close>

definition execute_try ::
  "schedule \<Rightarrow> string \<Rightarrow> string \<Rightarrow> string \<Rightarrow> server \<Rightarrow> (failure + rows \<times> entry list) \<times> server" where
  "execute_try sched node qry effectiveIsolation s =
     (let isWrite = isWriteQuery qry; lockTransId = parseTransId qry
      in case getConnection node s of
           (Some msg, s1) \<Rightarrow> (Inl (StoreError msg), s1)
         | (None, s1) \<Rightarrow>
             (case (if isWrite \<and> truthy lockTransId
                    then startTransaction sched lockTransId node s1
                    else (Inr (), 0, s1)) of
                (Inl f, n, s2) \<Rightarrow> (Inl f, s2)
              | (Inr u, n, s2) \<Rightarrow>
                  (case (if \<not> isWrite \<and> truthy lockTransId
                         then canReadProceed sched lockTransId effectiveIsolation s2
                         else (Inr True, 0, s2)) of
                     (Inl f, m, s3) \<Rightarrow> (Inl f, s3)
                   | (Inr b, m, s3) \<Rightarrow>
                       (case conn_query node qry s3 of
                          (Inl msg, s4) \<Rightarrow> (Inl (StoreError msg), s4)
                        | (Inr results, s4) \<Rightarrow>
                            (case replicateWrite node qry s4 of
                               (replicationResults, s5) \<Rightarrow>
                                 (Inr (results, replicationResults), s5))))))"

text \<open>\<open>isolationLevel || 'READ_COMMITTED'\<close>: an absent or empty level is replaced.\<close>

definition effective_isolation :: "string option \<Rightarrow> string" where
  "effective_isolation isolationLevel =
     (case isolationLevel of
        None \<Rightarrow> ''READ_COMMITTED''
      | Some l \<Rightarrow> if l = [] then ''READ_COMMITTED'' else l)"

definition execute :: "schedule \<Rightarrow> string \<Rightarrow> string \<Rightarrow> string option \<Rightarrow> server \<Rightarrow> response \<times> server" where
  "execute sched node qry isolationLevel s =
     (if \<not> known_node node then (Invalid_node, s)
      else
        (case uuidv4 s of (transactionId, s0) \<Rightarrow>
           if simulatedFailures s0 node then (Node_offline node transactionId, s0)
           else
             let logEntry = \<lparr>log_transactionId = transactionId, log_node = node,
                              log_query = qry,
                              log_isolationLevel = effective_isolation isolationLevel,
                              log_startTime = now s0, log_status = ''pending'',
                              log_endTime = None, log_results = None, log_error = None,
                              log_replication = None\<rparr>;
                 lockTransId = parseTransId qry
             in (case execute_try sched node qry (effective_isolation isolationLevel) s0 of
                   (Inr (results, replicationResults), s1) \<Rightarrow>
                     let replication = map (\<lambda>r. (target r, status r)) replicationResults;
                         logEntry' = logEntry\<lparr>log_status := ''committed'',
                                       log_endTime := Some (now s1),
                                       log_results := Some results,
                                       log_replication := Some replication\<rparr>;
                         s2 = (if truthy lockTransId then commitTransaction lockTransId s1 else s1)
                     in (Succeeded transactionId results replication logEntry',
                         s2\<lparr>transactionLog := transactionLog s2 @ [logEntry']\<rparr>)
                 | (Inl f, s1) \<Rightarrow>
                     let logEntry' = logEntry\<lparr>log_status := ''failed'',
                                       log_endTime := Some (now s1),
                                       log_error := Some f\<rparr>;
                         s2 = (if truthy lockTransId then commitTransaction lockTransId s1 else s1)
                     in (Errored transactionId f logEntry',
                         s2\<lparr>transactionLog := transactionLog s2 @ [logEntry']\<rparr>))))"


subsection \<open>The handler among other requests\<close>

text \<open>
  The handler once more, with the other requests let in at two more of its awaits.
  While it waits for its own statement (\<open>await connection.query(query)\<close>) they turn
  \<open>activeTransactions\<close> into \<open>at_query activeTransactions\<close>, and while it waits for
  \<open>replicateWrite\<close> into \<open>at_replication activeTransactions\<close>. \<open>replicateWrite\<close>
  neither reads nor writes the markers, so what the others do during its awaits is
  applied when it has returned. Nothing is suspended between the return of
  \<open>replicateWrite\<close> and the reply. When both functions are the identity these are
  \<open>execute_try\<close> and \<open>execute\<close>.
\<close>

definition interfere :: "((nat \<rightharpoonup> marker) \<Rightarrow> (nat \<rightharpoonup> marker)) \<Rightarrow> server \<Rightarrow> server" where
  "interfere f s = s\<lparr>activeTransactions := f (activeTransactions s)\<rparr>"

definition execute_try_among ::
  "schedule \<Rightarrow> ((nat \<rightharpoonup> marker) \<Rightarrow> (nat \<rightharpoonup> marker)) \<Rightarrow> ((nat \<rightharpoonup> marker) \<Rightarrow> (nat \<rightharpoonup> marker))
     \<Rightarrow> string \<Rightarrow> string \<Rightarrow> string \<Rightarrow> server \<Rightarrow> (failure + rows \<times> entry list) \<times> server" where
  "execute_try_among sched at_query at_replication node qry effectiveIsolation s =
     (let isWrite = isWriteQuery qry; lockTransId = parseTransId qry
      in case getConnection node s of
           (Some msg, s1) \<Rightarrow> (Inl (StoreError msg), s1)
         | (None, s1) \<Rightarrow>
             (case (if isWrite \<and> truthy lockTransId
                    then startTransaction sched lockTransId node s1
                    else (Inr (), 0, s1)) of
                (Inl f, n, s2) \<Rightarrow> (Inl f, s2)
              | (Inr u, n, s2) \<Rightarrow>
                  (case (if \<not> isWrite \<and> truthy lockTransId
                         then canReadProceed sched lockTransId effectiveIsolation s2
                         else (Inr True, 0, s2)) of
                     (Inl f, m, s3) \<Rightarrow> (Inl f, s3)
                   | (Inr b, m, s3) \<Rightarrow>
                       (case conn_query node qry s3 of
                          (Inl msg, s4) \<Rightarrow> (Inl (StoreError msg), interfere at_query s4)
                        | (Inr results, s4) \<Rightarrow>
                            (case replicateWrite node qry (interfere at_query s4) of
                               (replicationResults, s5) \<Rightarrow>
                                 (Inr (results, replicationResults),
                                  interfere at_replication s5))))))"

definition execute_among ::
  "schedule \<Rightarrow> ((nat \<rightharpoonup> marker) \<Rightarrow> (nat \<rightharpoonup> marker)) \<Rightarrow> ((nat \<rightharpoonup> marker) \<Rightarrow> (nat \<rightharpoonup> marker))
     \<Rightarrow> string \<Rightarrow> string \<Rightarrow> string option \<Rightarrow> server \<Rightarrow> response \<times> server" where
  "execute_among sched at_query at_replication node qry isolationLevel s =
     (if \<not> known_node node then (Invalid_node, s)
      else
        (case uuidv4 s of (transactionId, s0) \<Rightarrow>
           if simulatedFailures s0 node then (Node_offline node transactionId, s0)
           else
             let logEntry = \<lparr>log_transactionId = transactionId, log_node = node,
                              log_query = qry,
                              log_isolationLevel = effective_isolation isolationLevel,
                              log_startTime = now s0, log_status = ''pending'',
                              log_endTime = None, log_results = None, log_error = None,
                              log_replication = None\<rparr>;
                 lockTransId = parseTransId qry
             in (case execute_try_among sched at_query at_replication node qry
                        (effective_isolation isolationLevel) s0 of
                   (Inr (results, replicationResults), s1) \<Rightarrow>
                     let replication = map (\<lambda>r. (target r, status r)) replicationResults;
                         logEntry' = logEntry\<lparr>log_status := ''committed'',
                                       log_endTime := Some (now s1),
                                       log_results := Some results,
                                       log_replication := Some replication\<rparr>;
                         s2 = (if truthy lockTransId then commitTransaction lockTransId s1 else s1)
                     in (Succeeded transactionId results replication logEntry',
                         s2\<lparr>transactionLog := transactionLog s2 @ [logEntry']\<rparr>)
                 | (Inl f, s1) \<Rightarrow>
                     let logEntry' = logEntry\<lparr>log_status := ''failed'',
                                       log_endTime := Some (now s1),
                                       log_error := Some f\<rparr>;
                         s2 = (if truthy lockTransId then commitTransaction lockTransId s1 else s1)
                     in (Errored transactionId f logEntry',
                         s2\<lparr>transactionLog := transactionLog s2 @ [logEntry']\<rparr>))))"


section \<open>Notions used in the statements\<close>




text \<open>
  What one round of the loop of \<open>replicateWrite\<close> does for target \<open>t\<close>: the entry
  \<open>e\<close> it builds and the target's store before (\<open>st\<close>) and after (\<open>st'\<close>), given
  whether the target's fault flag is set.
\<close>

definition round_outcome ::
  "string \<Rightarrow> string \<Rightarrow> string \<Rightarrow> bool \<Rightarrow> store \<Rightarrow> entry \<Rightarrow> store \<Rightarrow> bool" where
  "round_outcome src q t flagged st e st' =
     (target e = t \<and> source e = src \<and> query e = q
      \<and> (flagged \<longrightarrow>
            status e = Failed
          \<and> error e = Some (''Node '' @ t @ '' is offline (simulated failure)'')
          \<and> st' = st)
      \<and> (\<not> flagged \<longrightarrow>
            calls st' = Suc (calls st)
          \<and> (case refuse st (calls st) of
                Some msg \<Rightarrow> status e = Failed \<and> error e = Some msg \<and> sent st' = sent st
              | None \<Rightarrow>
                  sent st' = sent st @ [q]
                \<and> (case answer st (Suc (calls st)) q of
                      Inl msg \<Rightarrow> status e = Failed \<and> error e = Some msg
                    | Inr r \<Rightarrow> status e = Replicated \<and> error e = None))))"



text \<open>Sequences of calls of the two functions that write to the ledger.\<close>

datatype ledger_call = ReplicateWrite string string | Replay string

fun ledger_step :: "ledger_call \<Rightarrow> server \<Rightarrow> server" where
  "ledger_step (ReplicateWrite sourceNode qry) s = snd (replicateWrite sourceNode qry s)"
| "ledger_step (Replay node) s = snd (replayFailedReplications node s)"

fun ledger_run :: "ledger_call list \<Rightarrow> server \<Rightarrow> server" where
  "ledger_run [] s = s"
| "ledger_run (c # cs) s = ledger_run cs (ledger_step c s)"


section \<open>Example stores and states\<close>

text \<open>A store that takes every connection and statement; \<open>dates\<close> is its \<open>newdate\<close> column.\<close>

definition accepting_store :: "(nat \<Rightarrow> js_date list) \<Rightarrow> store" where
  "accepting_store dates =
     \<lparr>refuse = (\<lambda>k. None), answer = (\<lambda>k stmt. Inr []), newdates = (\<lambda>k i. Inr (dates i)),
      calls = 0, sent = []\<rparr>"

text \<open>A store that cannot be reached.\<close>

definition unreachable_store :: "string \<Rightarrow> store" where
  "unreachable_store msg =
     \<lparr>refuse = (\<lambda>k. Some msg), answer = (\<lambda>k stmt. Inl msg), newdates = (\<lambda>k i. Inl msg),
      calls = 0, sent = []\<rparr>"

text \<open>The module-level variables as they are initialised, over given stores and clock.\<close>

definition initial_server :: "(string \<Rightarrow> store) \<Rightarrow> int \<Rightarrow> server" where
  "initial_server dbs t =
     \<lparr>simulatedFailures = (\<lambda>n. False),
      nodeStatus = (\<lambda>n. \<lparr>ns_status = ''offline'', lastCheck = None, ns_error = None,
                          failureTime = None\<rparr>),
      replicationQueue = [], transactionLog = [], activeTransactions = Map.empty,
      pools = dbs, now = t, uuids = 0\<rparr>"

text \<open>
  Record 42 is dated 1996-05-15, record 43 is dated 1997-01-01 (both at 00:00:00 UTC),
  the date of record 45 reads back as \<open>Invalid Date\<close>, and there is no other record.
\<close>

definition sample_dates :: "nat \<Rightarrow> js_date list" where
  "sample_dates i =
     (if i = 42 then [TimeValue 832118400000]
      else if i = 43 then [TimeValue 852076800000]
      else if i = 45 then [InvalidDate]
      else [])"

definition sample_server :: server where
  "sample_server = initial_server (\<lambda>n. accepting_store sample_dates) 1000"


text \<open>The state after the first \<open>n\<close> suspensions of a request that started in \<open>s\<close>.\<close>

fun after_sleeps :: "schedule \<Rightarrow> nat \<Rightarrow> server \<Rightarrow> server" where
  "after_sleeps sched 0 s = s"
| "after_sleeps sched (Suc n) s = sleep (sched n) (after_sleeps sched n s)"

text \<open>
  Three schedules: nothing else happens and every timer is punctual; the marker of key
  \<open>k\<close> is cleared during the suspension numbered \<open>i\<close>; nothing else happens and every
  timer fires six seconds late.
\<close>

definition quiet :: schedule where
  "quiet = (\<lambda>j. \<lparr>late = 0, others = (\<lambda>m. m)\<rparr>)"

definition released_at :: "nat \<Rightarrow> nat \<Rightarrow> schedule" where
  "released_at i k = (\<lambda>j. \<lparr>late = 0, others = (\<lambda>m. if j = i then m(k := None) else m)\<rparr>)"

definition stalled :: schedule where
  "stalled = (\<lambda>j. \<lparr>late = 6000, others = (\<lambda>m. m)\<rparr>)"

text \<open>The sample state while a write of record 42 is in flight on \<open>node0\<close>.\<close>

definition held_server :: server where
  "held_server =
     sample_server\<lparr>activeTransactions := [42 \<mapsto> \<lparr>owner = ''node0'', startTime = 900\<rparr>]\<rparr>"


text \<open>The sample state after \<open>node1\<close>, or both fragments, have been killed.\<close>

definition node1_killed :: server where
  "node1_killed = sample_server\<lparr>simulatedFailures := (\<lambda>n. n = ''node1'')\<rparr>"

definition fragments_killed :: server where
  "fragments_killed = sample_server\<lparr>simulatedFailures := (\<lambda>n. n = ''node1'' \<or> n = ''node2'')\<rparr>"


text \<open>
  A ledger that holds the entry of a write to record 42 that could not be replicated to
  the killed \<open>node1\<close>, over given stores; \<open>node1\<close> is no longer flagged.
\<close>

definition missed_entry :: entry where
  "missed_entry =
     \<lparr>entry_id = 0, source = ''node0'', target = ''node1'',
      query = ''UPDATE trans SET amount = 5 WHERE trans_id = 42'', status = Failed,
      error = Some ''Node node1 is offline (simulated failure)'', time = 1000,
      recoveryTime = None\<rparr>"

definition after_outage :: "(string \<Rightarrow> store) \<Rightarrow> server" where
  "after_outage dbs = (initial_server dbs 2000)\<lparr>replicationQueue := [missed_entry], uuids := 1\<rparr>"

text \<open>The stores when \<open>node1\<close> is back, and when it still cannot be reached.\<close>

definition all_up :: "string \<Rightarrow> store" where
  "all_up = (\<lambda>n. accepting_store sample_dates)"

definition node1_down :: "string \<Rightarrow> store" where
  "node1_down =
     (\<lambda>n. if n = ''node1'' then unreachable_store ''connect ETIMEDOUT''
          else accepting_store sample_dates)"


section \<open>Evaluation rules\<close>

lemmas store_defs = uuidv4_def getConnection_def conn_query_def select_newdate_def

lemmas text_defs = parseTransId_def match_here_def upper_of_def js_space_def js_digit_def
  parseInt10_def digit_value_def isWriteQuery_def toUpperCase_def trim_def startsWith_def
  truthy_def

lemmas sample_defs = sample_server_def initial_server_def accepting_store_def
  unreachable_store_def sample_dates_def

lemmas sched_defs = quiet_def released_at_def stalled_def held_server_def sleep_def

lemmas outage_defs = missed_entry_def after_outage_def all_up_def node1_down_def
  initial_server_def accepting_store_def unreachable_store_def sample_dates_def

lemma parse_update_42:
  "parseTransId ''UPDATE trans SET amount = 5 WHERE trans_id = 42'' = Some 42"
  by (simp add: text_defs)

lemma parse_update_43:
  "parseTransId ''UPDATE trans SET amount = 5 WHERE trans_id = 43'' = Some 43"
  by (simp add: text_defs)

lemma parse_update_44:
  "parseTransId ''UPDATE trans SET amount = 5 WHERE trans_id = 44'' = Some 44"
  by (simp add: text_defs)


lemma parse_select_42:
  "parseTransId ''SELECT * FROM trans WHERE trans_id = 42'' = Some 42"
  by (simp add: text_defs)

lemma parse_insert:
  "parseTransId ''INSERT INTO trans VALUES (7, 1, 2, 3, 4)'' = None"
  by (simp add: text_defs)

lemma write_samples:
  "isWriteQuery ''UPDATE trans SET amount = 5 WHERE trans_id = 42''"
  "isWriteQuery ''UPDATE trans SET amount = 5 WHERE trans_id = 43''"
  "isWriteQuery ''UPDATE trans SET amount = 5 WHERE trans_id = 44''"
  "isWriteQuery ''INSERT INTO trans VALUES (7, 1, 2, 3, 4)''"
  "isWriteQuery ''UPDATE trans SET amount = 5 WHERE trans_id = 45''"
  "\<not> isWriteQuery ''SELECT * FROM trans WHERE trans_id = 42''"
  by (simp_all add: text_defs)


section \<open>The replication targets\<close>

lemma replicate_to_target: "target (fst (replicate_to src q t s)) = t"
  by (simp add: replicate_to_def store_defs Let_def split: option.splits sum.splits)



text \<open>
  A date read back as \<open>Invalid Date\<close> is not before the boundary, since no comparison
  with \<open>NaN\<close> holds: the write goes to \<open>node2\<close>.
\<close>

lemma invalid_date_targets_node2:
  "replication_targets ''node0'' (Some InvalidDate) = [''node2'']"
  by (simp add: replication_targets_def FRAG_BOUNDARY_def)






section \<open>Lock manager and read admission\<close>

lemma now_after_sleeps: "now s + 50 * int n \<le> now (after_sleeps sched n s)"
  by (induction n) (auto simp: sleep_def)

lemma startTransaction_wait_spec:
  assumes "s = after_sleeps sched n0 s0"
      and "startTransaction_wait sched k start n0 s = (r, n, s')"
  shows "n0 \<le> n \<and> s' = after_sleeps sched n s0
       \<and> (\<forall>j. n0 \<le> j \<and> j < n \<longrightarrow>
              activeTransactions (after_sleeps sched j s0) k \<noteq> None
              \<and> now (after_sleeps sched j s0) - start \<le> TRANSACTION_TIMEOUT)
       \<and> (activeTransactions s' k = None \<longrightarrow> r = Inr ())
       \<and> (activeTransactions s' k \<noteq> None \<longrightarrow>
              r = Inl (LockTimeout k) \<and> now s' - start > TRANSACTION_TIMEOUT)"
  using assms
proof (induction sched k start n0 s arbitrary: r n s' rule: startTransaction_wait.induct)
  case (1 sched k start n0 s)
  show ?case
  proof (cases "activeTransactions s k \<noteq> None \<and> \<not> now s - start > TRANSACTION_TIMEOUT")
    case True
    have step: "startTransaction_wait sched k start (Suc n0) (sleep (sched n0) s) = (r, n, s')"
      using "1.prems"(2) True by (simp add: startTransaction_wait.simps [of sched k start n0 s])
    have c1: "activeTransactions s k \<noteq> None" and c2: "\<not> TRANSACTION_TIMEOUT < now s - start"
      using True by simp_all
    have eq: "sleep (sched n0) s = after_sleeps sched (Suc n0) s0"
      using "1.prems"(1) by simp
    have ih: "Suc n0 \<le> n \<and> s' = after_sleeps sched n s0
       \<and> (\<forall>j. Suc n0 \<le> j \<and> j < n \<longrightarrow>
              activeTransactions (after_sleeps sched j s0) k \<noteq> None
              \<and> now (after_sleeps sched j s0) - start \<le> TRANSACTION_TIMEOUT)
       \<and> (activeTransactions s' k = None \<longrightarrow> r = Inr ())
       \<and> (activeTransactions s' k \<noteq> None \<longrightarrow>
              r = Inl (LockTimeout k) \<and> now s' - start > TRANSACTION_TIMEOUT)"
      using "1.IH" [OF c1 c2 eq step] .
    have here: "activeTransactions (after_sleeps sched n0 s0) k \<noteq> None
              \<and> now (after_sleeps sched n0 s0) - start \<le> TRANSACTION_TIMEOUT"
      using True "1.prems"(1) by simp
    have "\<And>j. n0 \<le> j \<and> j < n \<Longrightarrow> activeTransactions (after_sleeps sched j s0) k \<noteq> None
              \<and> now (after_sleeps sched j s0) - start \<le> TRANSACTION_TIMEOUT"
    proof -
      fix j assume j: "n0 \<le> j \<and> j < n"
      show "activeTransactions (after_sleeps sched j s0) k \<noteq> None
              \<and> now (after_sleeps sched j s0) - start \<le> TRANSACTION_TIMEOUT"
      proof (cases "j = n0")
        case True
        then show ?thesis using here by simp
      next
        case False
        then have "Suc n0 \<le> j \<and> j < n" using j by simp
        then show ?thesis using ih by blast
      qed
    qed
    then show ?thesis using ih by auto
  next
    case False
    have res: "(r, n, s') =
        (if activeTransactions s k \<noteq> None then (Inl (LockTimeout k), n0, s) else (Inr (), n0, s))"
      using "1.prems"(2) False
      by (simp add: startTransaction_wait.simps [of sched k start n0 s] split: if_splits)
    then have "n = n0" and "s' = s" by (simp_all split: if_splits)
    moreover have "activeTransactions s k = None \<longrightarrow> r = Inr ()" using res by auto
    moreover have "activeTransactions s k \<noteq> None \<longrightarrow>
        r = Inl (LockTimeout k) \<and> now s - start > TRANSACTION_TIMEOUT"
      using res False by auto
    ultimately show ?thesis using "1.prems"(1) by auto
  qed
qed

lemma canReadProceed_wait_as_lock_wait:
  "canReadProceed_wait sched k lvl start n s =
     (case startTransaction_wait sched k start n s of
        (Inl f, m, s') \<Rightarrow> (Inl (ReadTimeout lvl), m, s')
      | (Inr u, m, s') \<Rightarrow> (Inr True, m, s'))"
proof (induction sched k start n s rule: startTransaction_wait.induct)
  case (1 sched k start n s)
  show ?case
  proof (cases "activeTransactions s k \<noteq> None \<and> \<not> now s - start > TRANSACTION_TIMEOUT")
    case True
    then show ?thesis
      using "1.IH"
      by (simp add: startTransaction_wait.simps [of sched k start n s]
                    canReadProceed_wait.simps [of sched k lvl start n s])
  next
    case False
    then show ?thesis
      by (auto simp: startTransaction_wait.simps [of sched k start n s]
                    canReadProceed_wait.simps [of sched k lvl start n s])
  qed
qed

lemma wait_bound:
  assumes "\<forall>j. j < n \<longrightarrow> now (after_sleeps sched j s) - now s \<le> TRANSACTION_TIMEOUT"
  shows "n \<le> 101"
proof (cases n)
  case 0
  then show ?thesis by simp
next
  case (Suc m)
  have "now (after_sleeps sched m s) - now s \<le> TRANSACTION_TIMEOUT" using assms Suc by simp
  moreover have "now s + 50 * int m \<le> now (after_sleeps sched m s)" by (rule now_after_sleeps)
  ultimately have "50 * int m \<le> 5000" by (simp add: TRANSACTION_TIMEOUT_def)
  then show ?thesis using Suc by simp
qed


lemma startTransaction_result:
  assumes "k \<noteq> 0" and "startTransaction sched (Some k) node s = (r, n, s')"
  shows "(activeTransactions s k = None \<longrightarrow>
            r = Inr () \<and> n = 0
          \<and> s' = s\<lparr>activeTransactions :=
                     (activeTransactions s)(k \<mapsto> \<lparr>owner = node, startTime = now s\<rparr>)\<rparr>)
       \<and> (activeTransactions s k \<noteq> None \<longrightarrow>
            n \<le> 101
          \<and> now s + 50 * int n \<le> now (after_sleeps sched n s)
          \<and> (\<forall>j<n. activeTransactions (after_sleeps sched j s) k \<noteq> None
                    \<and> now (after_sleeps sched j s) - now s \<le> 5000)
          \<and> (activeTransactions (after_sleeps sched n s) k = None \<longrightarrow>
                r = Inr ()
              \<and> s' = (after_sleeps sched n s)\<lparr>activeTransactions :=
                         (activeTransactions (after_sleeps sched n s))
                           (k \<mapsto> \<lparr>owner = node, startTime = now (after_sleeps sched n s)\<rparr>)\<rparr>)
          \<and> (activeTransactions (after_sleeps sched n s) k \<noteq> None \<longrightarrow>
                r = Inl (LockTimeout k)
              \<and> 5000 < now (after_sleeps sched n s) - now s
              \<and> s' = after_sleeps sched n s))"
proof (cases "activeTransactions s k = None")
  case True
  then show ?thesis using assms by (auto simp: startTransaction_def truthy_def)
next
  case False
  obtain r0 n0 s0 where w: "startTransaction_wait sched k (now s) 0 s = (r0, n0, s0)"
    by (cases "startTransaction_wait sched k (now s) 0 s") auto
  have spec: "0 \<le> n0 \<and> s0 = after_sleeps sched n0 s
       \<and> (\<forall>j. 0 \<le> j \<and> j < n0 \<longrightarrow>
              activeTransactions (after_sleeps sched j s) k \<noteq> None
              \<and> now (after_sleeps sched j s) - now s \<le> TRANSACTION_TIMEOUT)
       \<and> (activeTransactions s0 k = None \<longrightarrow> r0 = Inr ())
       \<and> (activeTransactions s0 k \<noteq> None \<longrightarrow>
              r0 = Inl (LockTimeout k) \<and> now s0 - now s > TRANSACTION_TIMEOUT)"
    by (rule startTransaction_wait_spec [OF _ w]) simp
  then have s0: "s0 = after_sleeps sched n0 s" by simp
  have bound: "n0 \<le> 101" using spec by (intro wait_bound [of n0 sched s]) simp
  have n: "n = n0" using assms False w by (auto simp: startTransaction_def truthy_def split: sum.splits)
  have clk: "now s + 50 * int n0 \<le> now (after_sleeps sched n0 s)" by (rule now_after_sleeps)
  have ok: "activeTransactions s0 k = None \<longrightarrow> r = Inr () \<and>
       s' = s0\<lparr>activeTransactions := (activeTransactions s0)(k \<mapsto> \<lparr>owner = node, startTime = now s0\<rparr>)\<rparr>"
    using assms False w spec by (auto simp: startTransaction_def truthy_def split: sum.splits)
  have ko: "activeTransactions s0 k \<noteq> None \<longrightarrow> r = Inl (LockTimeout k) \<and> s' = s0"
    using assms False w spec by (auto simp: startTransaction_def truthy_def split: sum.splits)
  show ?thesis using False spec bound n clk ok ko unfolding s0 TRANSACTION_TIMEOUT_def by auto
qed

text \<open>
  Claim C2. A write on a key that has no marker gets its marker at once, without a
  suspension. A write on a key that has a marker is suspended \<open>n\<close> times, each for
  at least 50 ms and \<open>n\<close> at most 101; the marker was there and no more than
  5000 ms had passed each time it looked before; at the end either the marker is gone,
  and it installs its own and proceeds, or the marker is still there more than 5000 ms
  after the start, and it fails with the lock timeout, having written nothing: the
  state is the one the other requests left.
\<close>

theorem startTransaction_lock_wait:
  assumes "k \<noteq> 0"
  shows "(activeTransactions s k = None \<longrightarrow>
            startTransaction sched (Some k) node s =
              (Inr (), 0,
               s\<lparr>activeTransactions :=
                    (activeTransactions s)(k \<mapsto> \<lparr>owner = node, startTime = now s\<rparr>)\<rparr>))
       \<and> (activeTransactions s k \<noteq> None \<longrightarrow>
            (case startTransaction sched (Some k) node s of (r, n, s') \<Rightarrow>
               n \<le> 101
             \<and> now s + 50 * int n \<le> now (after_sleeps sched n s)
             \<and> (\<forall>j<n. activeTransactions (after_sleeps sched j s) k \<noteq> None
                       \<and> now (after_sleeps sched j s) - now s \<le> 5000)
             \<and> (activeTransactions (after_sleeps sched n s) k = None \<longrightarrow>
                   r = Inr ()
                 \<and> s' = (after_sleeps sched n s)\<lparr>activeTransactions :=
                            (activeTransactions (after_sleeps sched n s))
                              (k \<mapsto> \<lparr>owner = node, startTime = now (after_sleeps sched n s)\<rparr>)\<rparr>)
             \<and> (activeTransactions (after_sleeps sched n s) k \<noteq> None \<longrightarrow>
                   r = Inl (LockTimeout k)
                 \<and> 5000 < now (after_sleeps sched n s) - now s
                 \<and> s' = after_sleeps sched n s)))"
proof -
  obtain r n s' where e: "startTransaction sched (Some k) node s = (r, n, s')"
    by (cases "startTransaction sched (Some k) node s") auto
  show ?thesis
    using startTransaction_result [OF assms e] unfolding e by simp
qed

lemma held_42: "activeTransactions held_server 42 \<noteq> None"
  by (simp add: sched_defs)

lemma free_42: "activeTransactions sample_server 42 = None"
  by (simp add: sample_defs)

lemma stalled_after_1: "after_sleeps stalled 1 held_server = held_server\<lparr>now := 7050\<rparr>"
  by (simp add: sched_defs sample_defs)

lemma released_after_2: "after_sleeps (released_at 1 42) 2 held_server = sample_server\<lparr>now := 1100\<rparr>"
  by (simp add: numeral_2_eq_2 sched_defs sample_defs)

lemma eval_released: "startTransaction (released_at 1 42) (Some 42) ''node1'' held_server =
   (Inr (), 2, sample_server\<lparr>now := 1100, activeTransactions := [42 \<mapsto> \<lparr>owner = ''node1'', startTime = 1100\<rparr>]\<rparr>)"
  by (simp add: startTransaction_def truthy_def sample_defs sched_defs startTransaction_wait.simps TRANSACTION_TIMEOUT_def)

lemma eval_stalled: "startTransaction stalled (Some 42) ''node1'' held_server =
   (Inl (LockTimeout 42), 1, held_server\<lparr>now := 7050\<rparr>)"
  by (simp add: startTransaction_def truthy_def sample_defs sched_defs startTransaction_wait.simps TRANSACTION_TIMEOUT_def)

theorem startTransaction_lock_wait_witness:
  "(42::nat) \<noteq> 0 \<and> activeTransactions sample_server 42 = None
   \<and> activeTransactions held_server 42 \<noteq> None
   \<and> startTransaction quiet (Some 42) ''node1'' sample_server =
       (Inr (), 0, sample_server\<lparr>activeTransactions :=
          (activeTransactions sample_server)(42 \<mapsto> \<lparr>owner = ''node1'', startTime = now sample_server\<rparr>)\<rparr>)
   \<and> (case startTransaction stalled (Some 42) ''node1'' held_server of (r, n, s') \<Rightarrow> n \<le> 101)
   \<and> (case startTransaction (released_at 1 42) (Some 42) ''node1'' held_server of (r, n, s') \<Rightarrow> n \<le> 101)"
proof -
  have k: "(42::nat) \<noteq> 0" by simp
  have a: "startTransaction quiet (Some 42) ''node1'' sample_server =
       (Inr (), 0, sample_server\<lparr>activeTransactions :=
          (activeTransactions sample_server)(42 \<mapsto> \<lparr>owner = ''node1'', startTime = now sample_server\<rparr>)\<rparr>)"
    using startTransaction_lock_wait [OF k, of sample_server quiet "''node1''"] free_42 by blast
  have b: "case startTransaction stalled (Some 42) ''node1'' held_server of (r, n, s') \<Rightarrow> n \<le> 101"
    using startTransaction_lock_wait [OF k, of held_server stalled "''node1''"] held_42 by (auto split: prod.splits)
  have c: "case startTransaction (released_at 1 42) (Some 42) ''node1'' held_server of (r, n, s') \<Rightarrow> n \<le> 101"
    using startTransaction_lock_wait [OF k, of held_server "released_at 1 42" "''node1''"] held_42 by (auto split: prod.splits)
  show ?thesis using k free_42 held_42 a b c by blast
qed


lemma canReadProceed_strict_result:
  assumes "canReadProceed sched transId lvl s = (r, n, s')"
      and h: "truthy transId" "activeTransactions s (the transId) \<noteq> None"
             "lvl \<noteq> ''READ_UNCOMMITTED''"
  shows "n \<le> 101
          \<and> s' = after_sleeps sched n s
          \<and> (\<forall>j<n. activeTransactions (after_sleeps sched j s) (the transId) \<noteq> None
                    \<and> now (after_sleeps sched j s) - now s \<le> 5000)
          \<and> (activeTransactions s' (the transId) = None \<longrightarrow> r = Inr True)
          \<and> (activeTransactions s' (the transId) \<noteq> None \<longrightarrow>
                r = Inl (ReadTimeout lvl) \<and> 5000 < now s' - now s)
          \<and> (n, s') = snd (startTransaction_wait sched (the transId) (now s) 0 s)
          \<and> isl r = isl (fst (startTransaction_wait sched (the transId) (now s) 0 s))"
proof -
  let ?k = "the transId"
  obtain r0 n0 s0 where w: "startTransaction_wait sched ?k (now s) 0 s = (r0, n0, s0)"
    by (cases "startTransaction_wait sched ?k (now s) 0 s") auto
  have spec: "0 \<le> n0 \<and> s0 = after_sleeps sched n0 s
     \<and> (\<forall>j. 0 \<le> j \<and> j < n0 \<longrightarrow>
            activeTransactions (after_sleeps sched j s) ?k \<noteq> None
            \<and> now (after_sleeps sched j s) - now s \<le> TRANSACTION_TIMEOUT)
     \<and> (activeTransactions s0 ?k = None \<longrightarrow> r0 = Inr ())
     \<and> (activeTransactions s0 ?k \<noteq> None \<longrightarrow>
            r0 = Inl (LockTimeout ?k) \<and> now s0 - now s > TRANSACTION_TIMEOUT)"
    by (rule startTransaction_wait_spec [OF _ w]) simp
  have bound: "n0 \<le> 101" using spec by (intro wait_bound [of n0 sched s]) simp
  have res: "(r, n, s') = (case r0 of Inl f \<Rightarrow> (Inl (ReadTimeout lvl), n0, s0)
                                     | Inr u \<Rightarrow> (Inr True, n0, s0))"
    using assms(1) h w
    by (simp add: canReadProceed_def canReadProceed_wait_as_lock_wait split: sum.splits)
  then have ns: "n = n0" "s' = s0" by (simp_all split: sum.splits)
  have r1: "activeTransactions s0 ?k = None \<longrightarrow> r = Inr True" using res spec by auto
  have r2: "activeTransactions s0 ?k \<noteq> None \<longrightarrow> r = Inl (ReadTimeout lvl)"
    using res spec by auto
  have r3: "isl r = isl r0" using res by (auto split: sum.splits)
  show ?thesis
    using spec bound ns r1 r2 r3 w unfolding TRANSACTION_TIMEOUT_def by auto
qed

text \<open>
  Claim C3. With no marker on the key (or no key) the read is admitted at once under
  every isolation level. With a marker and \<open>READ_UNCOMMITTED\<close> it is admitted at
  once. With a marker and \<open>READ_COMMITTED\<close>, \<open>REPEATABLE_READ\<close> or
  \<open>SERIALIZABLE\<close> it is suspended until the marker is gone, then admitted, or fails
  with the read timeout once more than 5000 ms have passed; the number of suspensions,
  the final state and whether it fails are those of the lock manager's loop on the same
  key, so they are the same for the three levels.
\<close>

theorem canReadProceed_admission:
  "(\<not> truthy transId \<or> activeTransactions s (the transId) = None \<longrightarrow>
      canReadProceed sched transId lvl s = (Inr True, 0, s))
 \<and> (truthy transId \<and> activeTransactions s (the transId) \<noteq> None
      \<and> lvl = ''READ_UNCOMMITTED'' \<longrightarrow>
      canReadProceed sched transId lvl s = (Inr True, 0, s))
 \<and> (truthy transId \<and> activeTransactions s (the transId) \<noteq> None
      \<and> lvl \<in> {''READ_COMMITTED'', ''REPEATABLE_READ'', ''SERIALIZABLE''} \<longrightarrow>
      (case canReadProceed sched transId lvl s of (r, n, s') \<Rightarrow>
         n \<le> 101
       \<and> s' = after_sleeps sched n s
       \<and> (\<forall>j<n. activeTransactions (after_sleeps sched j s) (the transId) \<noteq> None
                 \<and> now (after_sleeps sched j s) - now s \<le> 5000)
       \<and> (activeTransactions s' (the transId) = None \<longrightarrow> r = Inr True)
       \<and> (activeTransactions s' (the transId) \<noteq> None \<longrightarrow>
             r = Inl (ReadTimeout lvl) \<and> 5000 < now s' - now s)
       \<and> (n, s') = snd (startTransaction_wait sched (the transId) (now s) 0 s)
       \<and> isl r = isl (fst (startTransaction_wait sched (the transId) (now s) 0 s))))"
proof -
  have a: "\<not> truthy transId \<or> activeTransactions s (the transId) = None \<longrightarrow>
      canReadProceed sched transId lvl s = (Inr True, 0, s)"
    by (auto simp: canReadProceed_def)
  have b: "truthy transId \<and> activeTransactions s (the transId) \<noteq> None
      \<and> lvl = ''READ_UNCOMMITTED'' \<longrightarrow>
      canReadProceed sched transId lvl s = (Inr True, 0, s)"
    by (auto simp: canReadProceed_def)
  obtain r n s' where e: "canReadProceed sched transId lvl s = (r, n, s')"
    by (cases "canReadProceed sched transId lvl s") auto
  have c: "truthy transId \<and> activeTransactions s (the transId) \<noteq> None
      \<and> lvl \<in> {''READ_COMMITTED'', ''REPEATABLE_READ'', ''SERIALIZABLE''} \<longrightarrow>
      (case canReadProceed sched transId lvl s of (r, n, s') \<Rightarrow>
         n \<le> 101
       \<and> s' = after_sleeps sched n s
       \<and> (\<forall>j<n. activeTransactions (after_sleeps sched j s) (the transId) \<noteq> None
                 \<and> now (after_sleeps sched j s) - now s \<le> 5000)
       \<and> (activeTransactions s' (the transId) = None \<longrightarrow> r = Inr True)
       \<and> (activeTransactions s' (the transId) \<noteq> None \<longrightarrow>
             r = Inl (ReadTimeout lvl) \<and> 5000 < now s' - now s)
       \<and> (n, s') = snd (startTransaction_wait sched (the transId) (now s) 0 s)
       \<and> isl r = isl (fst (startTransaction_wait sched (the transId) (now s) 0 s)))"
  proof (intro impI)
    assume p: "truthy transId \<and> activeTransactions s (the transId) \<noteq> None
      \<and> lvl \<in> {''READ_COMMITTED'', ''REPEATABLE_READ'', ''SERIALIZABLE''}"
    then have q: "lvl \<noteq> ''READ_UNCOMMITTED''" by auto
    show "case canReadProceed sched transId lvl s of (r, n, s') \<Rightarrow>
         n \<le> 101
       \<and> s' = after_sleeps sched n s
       \<and> (\<forall>j<n. activeTransactions (after_sleeps sched j s) (the transId) \<noteq> None
                 \<and> now (after_sleeps sched j s) - now s \<le> 5000)
       \<and> (activeTransactions s' (the transId) = None \<longrightarrow> r = Inr True)
       \<and> (activeTransactions s' (the transId) \<noteq> None \<longrightarrow>
             r = Inl (ReadTimeout lvl) \<and> 5000 < now s' - now s)
       \<and> (n, s') = snd (startTransaction_wait sched (the transId) (now s) 0 s)
       \<and> isl r = isl (fst (startTransaction_wait sched (the transId) (now s) 0 s))"
      using canReadProceed_strict_result [OF e conjunct1 [OF p] conjunct1 [OF conjunct2 [OF p]] q]
      unfolding e prod.case .
  qed
  show ?thesis using a b c by blast
qed

lemma truthy_42: "truthy (Some 42)"
  by (simp add: truthy_def)

lemma strict_levels:
  "''READ_COMMITTED'' \<in> {''READ_COMMITTED'', ''REPEATABLE_READ'', ''SERIALIZABLE''}"
  "''REPEATABLE_READ'' \<in> {''READ_COMMITTED'', ''REPEATABLE_READ'', ''SERIALIZABLE''}"
  "''SERIALIZABLE'' \<in> {''READ_COMMITTED'', ''REPEATABLE_READ'', ''SERIALIZABLE''}"
  by simp_all

lemma read_released: "canReadProceed (released_at 1 42) (Some 42) ''REPEATABLE_READ'' held_server =
   (Inr True, 2, sample_server\<lparr>now := 1100\<rparr>)"
  by (simp add: canReadProceed_def truthy_def sample_defs sched_defs canReadProceed_wait.simps TRANSACTION_TIMEOUT_def)

lemma read_stalled: "canReadProceed stalled (Some 42) ''READ_COMMITTED'' held_server =
   (Inl (ReadTimeout ''READ_COMMITTED''), 1, held_server\<lparr>now := 7050\<rparr>)"
  by (simp add: canReadProceed_def truthy_def sample_defs sched_defs canReadProceed_wait.simps TRANSACTION_TIMEOUT_def)

theorem canReadProceed_admission_witness:
  "truthy (Some 42) \<and> activeTransactions sample_server (the (Some 42)) = None
   \<and> activeTransactions held_server (the (Some 42)) \<noteq> None
   \<and> canReadProceed stalled (Some 42) ''SERIALIZABLE'' sample_server = (Inr True, 0, sample_server)
   \<and> canReadProceed stalled (Some 42) ''READ_UNCOMMITTED'' held_server = (Inr True, 0, held_server)
   \<and> (case canReadProceed stalled (Some 42) ''READ_COMMITTED'' held_server of (r, n, s') \<Rightarrow>
         n \<le> 101 \<and> s' = after_sleeps stalled n held_server)
   \<and> (case canReadProceed stalled (Some 42) ''SERIALIZABLE'' held_server of (r, n, s') \<Rightarrow>
         (n, s') = snd (startTransaction_wait stalled (the (Some 42)) (now held_server) 0 held_server))"
proof -
  have f: "activeTransactions sample_server (the (Some 42)) = None" using free_42 by simp
  have g: "activeTransactions held_server (the (Some 42)) \<noteq> None" using held_42 by simp
  have a: "canReadProceed stalled (Some 42) ''SERIALIZABLE'' sample_server = (Inr True, 0, sample_server)"
    using canReadProceed_admission [of "Some 42" sample_server stalled "''SERIALIZABLE''"] f by blast
  have b: "canReadProceed stalled (Some 42) ''READ_UNCOMMITTED'' held_server = (Inr True, 0, held_server)"
    using canReadProceed_admission [of "Some 42" held_server stalled "''READ_UNCOMMITTED''"] truthy_42 g by blast
  have c: "case canReadProceed stalled (Some 42) ''READ_COMMITTED'' held_server of (r, n, s') \<Rightarrow>
         n \<le> 101 \<and> s' = after_sleeps stalled n held_server"
    using canReadProceed_admission [of "Some 42" held_server stalled "''READ_COMMITTED''"] truthy_42 g strict_levels(1)
    by (auto split: prod.splits)
  have d: "case canReadProceed stalled (Some 42) ''SERIALIZABLE'' held_server of (r, n, s') \<Rightarrow>
         (n, s') = snd (startTransaction_wait stalled (the (Some 42)) (now held_server) 0 held_server)"
    using canReadProceed_admission [of "Some 42" held_server stalled "''SERIALIZABLE''"] truthy_42 g strict_levels(3)
    by (auto split: prod.splits)
  show ?thesis using truthy_42 f g a b c d by blast
qed


section \<open>Replication entries and the handler\<close>


lemma replicate_to_entry:
  "source (fst (replicate_to src q t s)) = src"
  "query (fst (replicate_to src q t s)) = q"
  "replicationQueue (snd (replicate_to src q t s)) = replicationQueue s @ [fst (replicate_to src q t s)]"
  by (simp_all add: replicate_to_def store_defs Let_def split: option.splits sum.splits)

lemma replicate_to_frame:
  "activeTransactions (snd (replicate_to src q t s)) = activeTransactions s"
  "transactionLog (snd (replicate_to src q t s)) = transactionLog s"
  "simulatedFailures (snd (replicate_to src q t s)) = simulatedFailures s"
  "now (snd (replicate_to src q t s)) = now s"
  by (simp_all add: replicate_to_def store_defs Let_def split: option.splits sum.splits)

lemma replicate_to_flagged:
  "simulatedFailures s t \<Longrightarrow>
     status (fst (replicate_to src q t s)) = Failed
   \<and> error (fst (replicate_to src q t s)) = Some (''Node '' @ t @ '' is offline (simulated failure)'')
   \<and> pools (snd (replicate_to src q t s)) = pools s"
  by (simp add: replicate_to_def store_defs Let_def)

lemma replicate_to_refused:
  "\<not> simulatedFailures s t \<Longrightarrow> refuse (pools s t) (calls (pools s t)) = Some msg \<Longrightarrow>
     status (fst (replicate_to src q t s)) = Failed
   \<and> error (fst (replicate_to src q t s)) = Some msg
   \<and> calls (pools (snd (replicate_to src q t s)) t) = Suc (calls (pools s t))
   \<and> sent (pools (snd (replicate_to src q t s)) t) = sent (pools s t)"
  by (simp add: replicate_to_def store_defs Let_def)

lemma replicate_to_rejected:
  "\<not> simulatedFailures s t \<Longrightarrow> refuse (pools s t) (calls (pools s t)) = None \<Longrightarrow>
   answer (pools s t) (Suc (calls (pools s t))) q = Inl msg \<Longrightarrow>
     status (fst (replicate_to src q t s)) = Failed
   \<and> error (fst (replicate_to src q t s)) = Some msg
   \<and> calls (pools (snd (replicate_to src q t s)) t) = Suc (calls (pools s t))
   \<and> sent (pools (snd (replicate_to src q t s)) t) = sent (pools s t) @ [q]"
  by (simp add: replicate_to_def store_defs Let_def)

lemma replicate_to_applied:
  "\<not> simulatedFailures s t \<Longrightarrow> refuse (pools s t) (calls (pools s t)) = None \<Longrightarrow>
   answer (pools s t) (Suc (calls (pools s t))) q = Inr r \<Longrightarrow>
     status (fst (replicate_to src q t s)) = Replicated
   \<and> error (fst (replicate_to src q t s)) = None
   \<and> calls (pools (snd (replicate_to src q t s)) t) = Suc (calls (pools s t))
   \<and> sent (pools (snd (replicate_to src q t s)) t) = sent (pools s t) @ [q]"
  by (simp add: replicate_to_def store_defs Let_def)

lemma replicate_targets_queue:
  "replicationQueue (snd (replicate_targets src q tgts s)) =
     replicationQueue s @ fst (replicate_targets src q tgts s)"
proof (induction tgts arbitrary: s)
  case Nil
  show ?case by simp
next
  case (Cons t ts)
  obtain e s1 where a: "replicate_to src q t s = (e, s1)"
    by (cases "replicate_to src q t s")
  obtain es s2 where b: "replicate_targets src q ts s1 = (es, s2)"
    by (cases "replicate_targets src q ts s1")
  have "replicationQueue s1 = replicationQueue s @ [e]"
    using replicate_to_entry(3) [of src q t s] a by simp
  moreover have "replicationQueue s2 = replicationQueue s1 @ es" using Cons.IH [of s1] b by simp
  ultimately show ?case using a b by simp
qed

lemma replicate_targets_frame:
  "activeTransactions (snd (replicate_targets src q tgts s)) = activeTransactions s
 \<and> transactionLog (snd (replicate_targets src q tgts s)) = transactionLog s
 \<and> simulatedFailures (snd (replicate_targets src q tgts s)) = simulatedFailures s
 \<and> now (snd (replicate_targets src q tgts s)) = now s"
proof (induction tgts arbitrary: s)
  case Nil
  show ?case by simp
next
  case (Cons t ts)
  obtain e s1 where a: "replicate_to src q t s = (e, s1)"
    by (cases "replicate_to src q t s")
  obtain es s2 where b: "replicate_targets src q ts s1 = (es, s2)"
    by (cases "replicate_targets src q ts s1")
  have "activeTransactions s1 = activeTransactions s \<and> transactionLog s1 = transactionLog s
      \<and> simulatedFailures s1 = simulatedFailures s \<and> now s1 = now s"
    using replicate_to_frame [of src q t s] a by simp
  moreover have "activeTransactions s2 = activeTransactions s1 \<and> transactionLog s2 = transactionLog s1
      \<and> simulatedFailures s2 = simulatedFailures s1 \<and> now s2 = now s1"
    using Cons.IH [of s1] b by simp
  ultimately show ?case using a b by simp
qed

lemma fetch_record_date_frame:
  "activeTransactions (snd (fetch_record_date src tid s)) = activeTransactions s"
  "transactionLog (snd (fetch_record_date src tid s)) = transactionLog s"
  "simulatedFailures (snd (fetch_record_date src tid s)) = simulatedFailures s"
  "now (snd (fetch_record_date src tid s)) = now s"
  "replicationQueue (snd (fetch_record_date src tid s)) = replicationQueue s"
  by (simp_all add: fetch_record_date_def store_defs Let_def split: option.splits sum.splits list.splits)

lemma replicateWrite_queue:
  "replicationQueue (snd (replicateWrite src q s)) = replicationQueue s @ fst (replicateWrite src q s)"
proof -
  obtain d s1 where f: "fetch_record_date src (parseTransId q) s = (d, s1)"
    by (cases "fetch_record_date src (parseTransId q) s")
  have "replicationQueue s1 = replicationQueue s"
    using fetch_record_date_frame(5) [of src "parseTransId q" s] f by simp
  then show ?thesis
    using f replicate_targets_queue [of src q "replication_targets src d" s1]
    by (simp add: replicateWrite_def Let_def)
qed

lemma replicateWrite_frame:
  "activeTransactions (snd (replicateWrite src q s)) = activeTransactions s"
  "transactionLog (snd (replicateWrite src q s)) = transactionLog s"
  "simulatedFailures (snd (replicateWrite src q s)) = simulatedFailures s"
  "now (snd (replicateWrite src q s)) = now s"
proof -
  obtain d s1 where f: "fetch_record_date src (parseTransId q) s = (d, s1)"
    by (cases "fetch_record_date src (parseTransId q) s")
  have s1: "activeTransactions s1 = activeTransactions s" "transactionLog s1 = transactionLog s"
     "simulatedFailures s1 = simulatedFailures s" "now s1 = now s"
    using fetch_record_date_frame [of src "parseTransId q" s] f by simp_all
  show "activeTransactions (snd (replicateWrite src q s)) = activeTransactions s"
    "transactionLog (snd (replicateWrite src q s)) = transactionLog s"
    "simulatedFailures (snd (replicateWrite src q s)) = simulatedFailures s"
    "now (snd (replicateWrite src q s)) = now s"
    using f s1 replicate_targets_frame [of src q "replication_targets src d" s1]
    by (simp_all add: replicateWrite_def Let_def)
qed


lemma replicate_to_pools_other:
  "t \<noteq> tgt \<or> simulatedFailures s t \<Longrightarrow> pools (snd (replicate_to src q tgt s)) t = pools s t"
  by (auto simp: replicate_to_def store_defs Let_def split: option.splits sum.splits)

lemma replicate_to_settled: "status (fst (replicate_to src q t s)) \<noteq> Pending"
  by (simp add: replicate_to_def store_defs Let_def split: option.splits sum.splits)

lemma replicate_targets_flagged:
  "(\<forall>e \<in> set (fst (replicate_targets src q tgts s)).
       status e \<noteq> Pending
     \<and> (simulatedFailures s (target e) \<longrightarrow>
           status e = Failed
         \<and> error e = Some (''Node '' @ target e @ '' is offline (simulated failure)'')))
 \<and> (simulatedFailures s t \<longrightarrow> pools (snd (replicate_targets src q tgts s)) t = pools s t)"
proof (induction tgts arbitrary: s)
  case Nil
  show ?case by simp
next
  case (Cons x xs)
  obtain e s1 where a: "replicate_to src q x s = (e, s1)"
    by (cases "replicate_to src q x s")
  obtain es s2 where b: "replicate_targets src q xs s1 = (es, s2)"
    by (cases "replicate_targets src q xs s1")
  have fl: "simulatedFailures s1 = simulatedFailures s"
    using replicate_to_frame(3) [of src q x s] a by simp
  have tx: "target e = x" using replicate_to_target [of src q x s] a by simp
  have e1: "status e \<noteq> Pending" using replicate_to_settled [of src q x s] a by simp
  have e2: "simulatedFailures s (target e) \<longrightarrow>
           status e = Failed
         \<and> error e = Some (''Node '' @ target e @ '' is offline (simulated failure)'')"
    using replicate_to_flagged [of s x src q] a tx by simp
  have p1: "simulatedFailures s t \<longrightarrow> pools s1 t = pools s t"
    using replicate_to_pools_other [of t x s src q] a by auto
  have ih: "(\<forall>e \<in> set es.
       status e \<noteq> Pending
     \<and> (simulatedFailures s (target e) \<longrightarrow>
           status e = Failed
         \<and> error e = Some (''Node '' @ target e @ '' is offline (simulated failure)'')))
   \<and> (simulatedFailures s t \<longrightarrow> pools s2 t = pools s1 t)"
    using Cons.IH [of s1] b fl by simp
  show ?case using a b e1 e2 p1 ih by simp
qed

lemma fetch_record_date_pools_other:
  "t \<noteq> src \<Longrightarrow> pools (snd (fetch_record_date src tid s)) t = pools s t"
  by (simp add: fetch_record_date_def store_defs Let_def split: option.splits sum.splits list.splits)

lemma replicateWrite_flagged:
  "(\<forall>e \<in> set (fst (replicateWrite src q s)).
       status e \<noteq> Pending
     \<and> (simulatedFailures s (target e) \<longrightarrow>
           status e = Failed
         \<and> error e = Some (''Node '' @ target e @ '' is offline (simulated failure)'')))
 \<and> (simulatedFailures s t \<and> t \<noteq> src \<longrightarrow> pools (snd (replicateWrite src q s)) t = pools s t)"
proof -
  obtain d s1 where f: "fetch_record_date src (parseTransId q) s = (d, s1)"
    by (cases "fetch_record_date src (parseTransId q) s")
  have fl: "simulatedFailures s1 = simulatedFailures s"
    using fetch_record_date_frame(3) [of src "parseTransId q" s] f by simp
  have po: "t \<noteq> src \<longrightarrow> pools s1 t = pools s t"
    using fetch_record_date_pools_other [of t src "parseTransId q" s] f by simp
  show ?thesis
    using f fl po replicate_targets_flagged [of src q "replication_targets src d" s1 t]
    by (simp add: replicateWrite_def Let_def)
qed

lemma replicate_to_round:
  "round_outcome src q t (simulatedFailures s t) (pools s t)
     (fst (replicate_to src q t s)) (pools (snd (replicate_to src q t s)) t)"
  by (simp add: round_outcome_def replicate_to_def store_defs Let_def
           split: option.splits sum.splits)

lemma replicate_targets_pools_other:
  "t \<notin> set tgts \<Longrightarrow> pools (snd (replicate_targets src q tgts s)) t = pools s t"
proof (induction tgts arbitrary: s)
  case Nil
  show ?case by simp
next
  case (Cons x xs)
  obtain e s1 where a: "replicate_to src q x s = (e, s1)"
    by (cases "replicate_to src q x s")
  obtain es s2 where b: "replicate_targets src q xs s1 = (es, s2)"
    by (cases "replicate_targets src q xs s1")
  have "pools s1 t = pools s t"
    using replicate_to_pools_other [of t x s src q] a Cons.prems by auto
  moreover have "pools s2 t = pools s1 t" using Cons.IH [of s1] Cons.prems b by simp
  ultimately show ?case using a b by simp
qed

lemma replicate_targets_rounds:
  assumes "distinct tgts"
  shows "length (fst (replicate_targets src q tgts s)) = length tgts
       \<and> (\<forall>j < length tgts.
             round_outcome src q (tgts ! j) (simulatedFailures s (tgts ! j)) (pools s (tgts ! j))
               (fst (replicate_targets src q tgts s) ! j)
               (pools (snd (replicate_targets src q tgts s)) (tgts ! j)))"
  using assms
proof (induction tgts arbitrary: s)
  case Nil
  show ?case by simp
next
  case (Cons x xs)
  obtain e s1 where a: "replicate_to src q x s = (e, s1)"
    by (cases "replicate_to src q x s")
  obtain es s2 where b: "replicate_targets src q xs s1 = (es, s2)"
    by (cases "replicate_targets src q xs s1")
  have nx: "x \<notin> set xs" and d: "distinct xs" using Cons.prems by simp_all
  have fl: "simulatedFailures s1 = simulatedFailures s"
    using replicate_to_frame(3) [of src q x s] a by simp
  have r0: "round_outcome src q x (simulatedFailures s x) (pools s x) e (pools s1 x)"
    using replicate_to_round [of src q x s] a by simp
  have keep: "pools s2 x = pools s1 x"
    using replicate_targets_pools_other [OF nx, of src q s1] b by simp
  have ih: "length es = length xs
       \<and> (\<forall>j < length xs.
             round_outcome src q (xs ! j) (simulatedFailures s1 (xs ! j)) (pools s1 (xs ! j))
               (es ! j) (pools s2 (xs ! j)))"
    using Cons.IH [OF d, of s1] b by simp
  have tail: "\<And>j. j < length xs \<Longrightarrow>
             round_outcome src q (xs ! j) (simulatedFailures s (xs ! j)) (pools s (xs ! j))
               (es ! j) (pools s2 (xs ! j))"
  proof -
    fix j assume j: "j < length xs"
    then have "xs ! j \<noteq> x" using nx by (metis nth_mem)
    then have p: "pools s1 (xs ! j) = pools s (xs ! j)"
      using replicate_to_pools_other [of "xs ! j" x s src q] a by auto
    have "round_outcome src q (xs ! j) (simulatedFailures s1 (xs ! j)) (pools s1 (xs ! j))
               (es ! j) (pools s2 (xs ! j))"
      using ih j by blast
    then show "round_outcome src q (xs ! j) (simulatedFailures s (xs ! j)) (pools s (xs ! j))
               (es ! j) (pools s2 (xs ! j))"
      using p fl by simp
  qed
  have all: "\<forall>j < length (x # xs).
             round_outcome src q ((x # xs) ! j) (simulatedFailures s ((x # xs) ! j))
               (pools s ((x # xs) ! j)) ((e # es) ! j) (pools s2 ((x # xs) ! j))"
  proof (intro allI impI)
    fix j assume "j < length (x # xs)"
    then show "round_outcome src q ((x # xs) ! j) (simulatedFailures s ((x # xs) ! j))
               (pools s ((x # xs) ! j)) ((e # es) ! j) (pools s2 ((x # xs) ! j))"
      using r0 keep tail by (cases j) simp_all
  qed
  show ?case using a b ih all by simp
qed

lemma replication_targets_distinct:
  "distinct (replication_targets src d) \<and> src \<notin> set (replication_targets src d)"
  by (simp add: replication_targets_def split: option.splits)

lemma fetch_record_date_uuids:
  "uuids (snd (fetch_record_date src tid s)) = uuids s"
  by (simp add: fetch_record_date_def store_defs Let_def split: option.splits sum.splits list.splits)

lemma replicateWrite_rounds:
  assumes "isWriteQuery q"
  shows "length (fst (replicateWrite src q s))
           = length (replication_targets src (fst (fetch_record_date src (parseTransId q) s)))
       \<and> (\<forall>j < length (replication_targets src (fst (fetch_record_date src (parseTransId q) s))).
             round_outcome src q
               (replication_targets src (fst (fetch_record_date src (parseTransId q) s)) ! j)
               (simulatedFailures s
                  (replication_targets src (fst (fetch_record_date src (parseTransId q) s)) ! j))
               (pools s
                  (replication_targets src (fst (fetch_record_date src (parseTransId q) s)) ! j))
               (fst (replicateWrite src q s) ! j)
               (pools (snd (replicateWrite src q s))
                  (replication_targets src (fst (fetch_record_date src (parseTransId q) s)) ! j)))"
proof -
  obtain d s1 where f: "fetch_record_date src (parseTransId q) s = (d, s1)"
    by (cases "fetch_record_date src (parseTransId q) s")
  let ?tgts = "replication_targets src d"
  have rw: "replicateWrite src q s = replicate_targets src q ?tgts s1"
    using assms f by (auto simp: replicateWrite_def isWriteQuery_def Let_def)
  have fl: "simulatedFailures s1 = simulatedFailures s"
    using fetch_record_date_frame(3) [of src "parseTransId q" s] f by simp
  have po: "\<And>j. j < length ?tgts \<Longrightarrow> pools s1 (?tgts ! j) = pools s (?tgts ! j)"
  proof -
    fix j assume "j < length ?tgts"
    then have "?tgts ! j \<noteq> src"
      using replication_targets_distinct [of src d] by (metis nth_mem)
    then show "pools s1 (?tgts ! j) = pools s (?tgts ! j)"
      using fetch_record_date_pools_other [of "?tgts ! j" src "parseTransId q" s] f by simp
  qed
  have r: "length (fst (replicate_targets src q ?tgts s1)) = length ?tgts
       \<and> (\<forall>j < length ?tgts.
             round_outcome src q (?tgts ! j) (simulatedFailures s1 (?tgts ! j)) (pools s1 (?tgts ! j))
               (fst (replicate_targets src q ?tgts s1) ! j)
               (pools (snd (replicate_targets src q ?tgts s1)) (?tgts ! j)))"
    using replicate_targets_rounds [of ?tgts src q s1] replication_targets_distinct [of src d]
    by blast
  have "\<forall>j < length ?tgts.
             round_outcome src q (?tgts ! j) (simulatedFailures s (?tgts ! j)) (pools s (?tgts ! j))
               (fst (replicate_targets src q ?tgts s1) ! j)
               (pools (snd (replicate_targets src q ?tgts s1)) (?tgts ! j))"
  proof (intro allI impI)
    fix j assume j: "j < length ?tgts"
    have "round_outcome src q (?tgts ! j) (simulatedFailures s1 (?tgts ! j)) (pools s1 (?tgts ! j))
               (fst (replicate_targets src q ?tgts s1) ! j)
               (pools (snd (replicate_targets src q ?tgts s1)) (?tgts ! j))"
      using r j by blast
    then show "round_outcome src q (?tgts ! j) (simulatedFailures s (?tgts ! j)) (pools s (?tgts ! j))
               (fst (replicate_targets src q ?tgts s1) ! j)
               (pools (snd (replicate_targets src q ?tgts s1)) (?tgts ! j))"
      using fl po [OF j] by simp
  qed
  then show ?thesis using r f rw by simp
qed


text \<open>
  Claim C4. In one round of the loop: when the target's fault flag is set the entry is
  \<open>failed\<close> with the message that names the node, and no store is touched; when it
  is clear a connection is requested from the target's store, and the entry is
  \<open>failed\<close> with the store's message when the connection or the statement is
  refused, \<open>replicated\<close> when the statement is taken; the entry is pushed on
  \<open>replicationQueue\<close>. For the whole of \<open>replicateWrite\<close>: a query that is not a
  write gives no entry and changes nothing; a write gives one entry for each target,
  in the order of the targets, and for each target the entry and the target's store
  are as one round leaves them, judged on the flag and the store as they were at the
  call; the entries returned are the ones appended to the queue, none is left
  \<open>pending\<close>, and the store of a flagged target is as it was.
\<close>

theorem replicateWrite_entries:
  "(simulatedFailures s tgt \<longrightarrow>
       status (fst (replicate_to src q tgt s)) = Failed
     \<and> error (fst (replicate_to src q tgt s))
         = Some (''Node '' @ tgt @ '' is offline (simulated failure)'')
     \<and> pools (snd (replicate_to src q tgt s)) = pools s)
 \<and> (\<not> simulatedFailures s tgt \<longrightarrow>
       calls (pools (snd (replicate_to src q tgt s)) tgt) = Suc (calls (pools s tgt))
     \<and> (case refuse (pools s tgt) (calls (pools s tgt)) of
          Some msg \<Rightarrow>
            status (fst (replicate_to src q tgt s)) = Failed
          \<and> error (fst (replicate_to src q tgt s)) = Some msg
          \<and> sent (pools (snd (replicate_to src q tgt s)) tgt) = sent (pools s tgt)
        | None \<Rightarrow>
            sent (pools (snd (replicate_to src q tgt s)) tgt) = sent (pools s tgt) @ [q]
          \<and> (case answer (pools s tgt) (Suc (calls (pools s tgt))) q of
                Inl msg \<Rightarrow>
                  status (fst (replicate_to src q tgt s)) = Failed
                \<and> error (fst (replicate_to src q tgt s)) = Some msg
              | Inr r \<Rightarrow>
                  status (fst (replicate_to src q tgt s)) = Replicated
                \<and> error (fst (replicate_to src q tgt s)) = None)))
 \<and> replicationQueue (snd (replicate_to src q tgt s))
     = replicationQueue s @ [fst (replicate_to src q tgt s)]
 \<and> replicationQueue (snd (replicateWrite src q s))
     = replicationQueue s @ fst (replicateWrite src q s)
 \<and> (\<forall>e \<in> set (fst (replicateWrite src q s)).
       status e \<noteq> Pending
     \<and> (simulatedFailures s (target e) \<longrightarrow>
           status e = Failed
         \<and> error e = Some (''Node '' @ target e @ '' is offline (simulated failure)'')))
 \<and> (simulatedFailures s tgt \<and> tgt \<noteq> src \<longrightarrow>
       pools (snd (replicateWrite src q s)) tgt = pools s tgt)
 \<and> (\<not> isWriteQuery q \<longrightarrow> replicateWrite src q s = ([], s))
 \<and> (isWriteQuery q \<longrightarrow>
       (let tgts = replication_targets src (fst (fetch_record_date src (parseTransId q) s));
            es = fst (replicateWrite src q s);
            s' = snd (replicateWrite src q s)
        in length es = length tgts
         \<and> (\<forall>j < length tgts.
               target (es ! j) = tgts ! j \<and> source (es ! j) = src \<and> query (es ! j) = q
             \<and> (simulatedFailures s (tgts ! j) \<longrightarrow>
                   status (es ! j) = Failed
                 \<and> error (es ! j)
                     = Some (''Node '' @ tgts ! j @ '' is offline (simulated failure)'')
                 \<and> pools s' (tgts ! j) = pools s (tgts ! j))
             \<and> (\<not> simulatedFailures s (tgts ! j) \<longrightarrow>
                   calls (pools s' (tgts ! j)) = Suc (calls (pools s (tgts ! j)))
                 \<and> (case refuse (pools s (tgts ! j)) (calls (pools s (tgts ! j))) of
                      Some msg \<Rightarrow>
                        status (es ! j) = Failed \<and> error (es ! j) = Some msg
                      \<and> sent (pools s' (tgts ! j)) = sent (pools s (tgts ! j))
                    | None \<Rightarrow>
                        sent (pools s' (tgts ! j)) = sent (pools s (tgts ! j)) @ [q]
                      \<and> (case answer (pools s (tgts ! j))
                                  (Suc (calls (pools s (tgts ! j)))) q of
                            Inl msg \<Rightarrow> status (es ! j) = Failed \<and> error (es ! j) = Some msg
                          | Inr r \<Rightarrow>
                              status (es ! j) = Replicated \<and> error (es ! j) = None))))))"
proof -
  have a: "simulatedFailures s tgt \<longrightarrow>
       status (fst (replicate_to src q tgt s)) = Failed
     \<and> error (fst (replicate_to src q tgt s))
         = Some (''Node '' @ tgt @ '' is offline (simulated failure)'')
     \<and> pools (snd (replicate_to src q tgt s)) = pools s"
    using replicate_to_flagged [of s tgt src q] by blast
  have b: "\<not> simulatedFailures s tgt \<longrightarrow>
       calls (pools (snd (replicate_to src q tgt s)) tgt) = Suc (calls (pools s tgt))
     \<and> (case refuse (pools s tgt) (calls (pools s tgt)) of
          Some msg \<Rightarrow>
            status (fst (replicate_to src q tgt s)) = Failed
          \<and> error (fst (replicate_to src q tgt s)) = Some msg
          \<and> sent (pools (snd (replicate_to src q tgt s)) tgt) = sent (pools s tgt)
        | None \<Rightarrow>
            sent (pools (snd (replicate_to src q tgt s)) tgt) = sent (pools s tgt) @ [q]
          \<and> (case answer (pools s tgt) (Suc (calls (pools s tgt))) q of
                Inl msg \<Rightarrow>
                  status (fst (replicate_to src q tgt s)) = Failed
                \<and> error (fst (replicate_to src q tgt s)) = Some msg
              | Inr r \<Rightarrow>
                  status (fst (replicate_to src q tgt s)) = Replicated
                \<and> error (fst (replicate_to src q tgt s)) = None))"
    by (simp add: replicate_to_def store_defs Let_def split: option.splits sum.splits)
  have c: "\<not> isWriteQuery q \<longrightarrow> replicateWrite src q s = ([], s)"
    by (simp add: replicateWrite_def isWriteQuery_def Let_def)
  have d: "isWriteQuery q \<longrightarrow>
       (let tgts = replication_targets src (fst (fetch_record_date src (parseTransId q) s));
            es = fst (replicateWrite src q s);
            s' = snd (replicateWrite src q s)
        in length es = length tgts
         \<and> (\<forall>j < length tgts.
               target (es ! j) = tgts ! j \<and> source (es ! j) = src \<and> query (es ! j) = q
             \<and> (simulatedFailures s (tgts ! j) \<longrightarrow>
                   status (es ! j) = Failed
                 \<and> error (es ! j)
                     = Some (''Node '' @ tgts ! j @ '' is offline (simulated failure)'')
                 \<and> pools s' (tgts ! j) = pools s (tgts ! j))
             \<and> (\<not> simulatedFailures s (tgts ! j) \<longrightarrow>
                   calls (pools s' (tgts ! j)) = Suc (calls (pools s (tgts ! j)))
                 \<and> (case refuse (pools s (tgts ! j)) (calls (pools s (tgts ! j))) of
                      Some msg \<Rightarrow>
                        status (es ! j) = Failed \<and> error (es ! j) = Some msg
                      \<and> sent (pools s' (tgts ! j)) = sent (pools s (tgts ! j))
                    | None \<Rightarrow>
                        sent (pools s' (tgts ! j)) = sent (pools s (tgts ! j)) @ [q]
                      \<and> (case answer (pools s (tgts ! j))
                                  (Suc (calls (pools s (tgts ! j)))) q of
                            Inl msg \<Rightarrow> status (es ! j) = Failed \<and> error (es ! j) = Some msg
                          | Inr r \<Rightarrow>
                              status (es ! j) = Replicated \<and> error (es ! j) = None)))))"
    unfolding Let_def
    using replicateWrite_rounds [of q src s, unfolded round_outcome_def]
    by blast
  show ?thesis
    using a b c d replicate_to_entry(3) [of src q tgt s] replicateWrite_queue [of src q s]
          replicateWrite_flagged [of src q s tgt]
    by blast
qed



lemma scenario_B:
  "replicateWrite ''node0'' ''UPDATE trans SET amount = 5 WHERE trans_id = 42'' node1_killed =
     ([\<lparr>entry_id = 0, source = ''node0'', target = ''node1'',
        query = ''UPDATE trans SET amount = 5 WHERE trans_id = 42'', status = Failed,
        error = Some ''Node node1 is offline (simulated failure)'', time = 1000,
        recoveryTime = None\<rparr>],
      node1_killed\<lparr>uuids := 1,
        pools := (pools node1_killed)(''node0'' := (pools node1_killed ''node0'')
           \<lparr>calls := 1, sent := [''SELECT newdate FROM trans WHERE trans_id = ?'']\<rparr>),
        replicationQueue := [\<lparr>entry_id = 0, source = ''node0'', target = ''node1'',
        query = ''UPDATE trans SET amount = 5 WHERE trans_id = 42'', status = Failed,
        error = Some ''Node node1 is offline (simulated failure)'', time = 1000,
        recoveryTime = None\<rparr>]\<rparr>)"
  by (simp add: replicateWrite_def Let_def write_samples [unfolded isWriteQuery_def Let_def]
        parse_update_42 fetch_record_date_def truthy_def store_defs replication_targets_def
        FRAG_BOUNDARY_def replicate_to_def node1_killed_def sample_defs)

theorem replicateWrite_entries_witness:
  "isWriteQuery ''UPDATE trans SET amount = 5 WHERE trans_id = 42''
 \<and> isWriteQuery ''UPDATE trans SET amount = 5 WHERE trans_id = 43''
 \<and> simulatedFailures node1_killed ''node1'' \<and> \<not> simulatedFailures node1_killed ''node2''
 \<and> length (fst (replicateWrite ''node0''
       ''UPDATE trans SET amount = 5 WHERE trans_id = 42'' node1_killed)) = 1
 \<and> status (fst (replicateWrite ''node0''
       ''UPDATE trans SET amount = 5 WHERE trans_id = 42'' node1_killed) ! 0) = Failed
 \<and> error (fst (replicateWrite ''node0''
       ''UPDATE trans SET amount = 5 WHERE trans_id = 42'' node1_killed) ! 0)
     = Some ''Node node1 is offline (simulated failure)''
 \<and> pools (snd (replicateWrite ''node0''
       ''UPDATE trans SET amount = 5 WHERE trans_id = 42'' node1_killed)) ''node1''
     = pools node1_killed ''node1''
 \<and> length (fst (replicateWrite ''node0''
       ''UPDATE trans SET amount = 5 WHERE trans_id = 43'' node1_killed)) = 1
 \<and> target (fst (replicateWrite ''node0''
       ''UPDATE trans SET amount = 5 WHERE trans_id = 43'' node1_killed) ! 0) = ''node2''
 \<and> status (fst (replicateWrite ''node0''
       ''UPDATE trans SET amount = 5 WHERE trans_id = 43'' node1_killed) ! 0) = Replicated
 \<and> sent (pools (snd (replicateWrite ''node0''
       ''UPDATE trans SET amount = 5 WHERE trans_id = 43'' node1_killed)) ''node2'')
     = [''UPDATE trans SET amount = 5 WHERE trans_id = 43'']"
proof -
  let ?q42 = "''UPDATE trans SET amount = 5 WHERE trans_id = 42''"
  let ?q43 = "''UPDATE trans SET amount = 5 WHERE trans_id = 43''"
  have f1: "simulatedFailures node1_killed ''node1''" by (simp add: node1_killed_def)
  have f2: "\<not> simulatedFailures node1_killed ''node2''" by (simp add: node1_killed_def)
  have tg1: "replication_targets ''node0''
               (fst (fetch_record_date ''node0'' (parseTransId ?q42) node1_killed)) = [''node1'']"
    by (simp add: parse_update_42 fetch_record_date_def truthy_def store_defs
          replication_targets_def FRAG_BOUNDARY_def node1_killed_def sample_defs)
  have tg2: "replication_targets ''node0''
               (fst (fetch_record_date ''node0'' (parseTransId ?q43) node1_killed)) = [''node2'']"
    by (simp add: parse_update_43 fetch_record_date_def truthy_def store_defs
          replication_targets_def FRAG_BOUNDARY_def node1_killed_def sample_defs)
  have o1: "refuse (pools node1_killed ''node2'') (calls (pools node1_killed ''node2'')) = None"
    by (simp add: node1_killed_def sample_defs)
  have o2: "answer (pools node1_killed ''node2'') (Suc (calls (pools node1_killed ''node2'')))
              ?q43 = Inr []"
    by (simp add: node1_killed_def sample_defs)
  have o3: "sent (pools node1_killed ''node2'') = []"
    by (simp add: node1_killed_def sample_defs)
  have w1: "let tgts = replication_targets ''node0''
                         (fst (fetch_record_date ''node0'' (parseTransId ?q42) node1_killed));
                es = fst (replicateWrite ''node0'' ?q42 node1_killed);
                s' = snd (replicateWrite ''node0'' ?q42 node1_killed)
            in length es = length tgts
             \<and> (\<forall>j < length tgts.
               target (es ! j) = tgts ! j \<and> source (es ! j) = ''node0'' \<and> query (es ! j) = ?q42
             \<and> (simulatedFailures node1_killed (tgts ! j) \<longrightarrow>
                   status (es ! j) = Failed
                 \<and> error (es ! j)
                     = Some (''Node '' @ tgts ! j @ '' is offline (simulated failure)'')
                 \<and> pools s' (tgts ! j) = pools node1_killed (tgts ! j))
             \<and> (\<not> simulatedFailures node1_killed (tgts ! j) \<longrightarrow>
                   calls (pools s' (tgts ! j)) = Suc (calls (pools node1_killed (tgts ! j)))
                 \<and> (case refuse (pools node1_killed (tgts ! j))
                           (calls (pools node1_killed (tgts ! j))) of
                      Some msg \<Rightarrow>
                        status (es ! j) = Failed \<and> error (es ! j) = Some msg
                      \<and> sent (pools s' (tgts ! j)) = sent (pools node1_killed (tgts ! j))
                    | None \<Rightarrow>
                        sent (pools s' (tgts ! j)) = sent (pools node1_killed (tgts ! j)) @ [?q42]
                      \<and> (case answer (pools node1_killed (tgts ! j))
                                  (Suc (calls (pools node1_killed (tgts ! j)))) ?q42 of
                            Inl msg \<Rightarrow> status (es ! j) = Failed \<and> error (es ! j) = Some msg
                          | Inr r \<Rightarrow>
                              status (es ! j) = Replicated \<and> error (es ! j) = None))))"
    using replicateWrite_entries [where s = node1_killed and src = "''node0''" and q = ?q42
                   and tgt = "''node1''"] write_samples(1)
    by blast
  have w2: "let tgts = replication_targets ''node0''
                         (fst (fetch_record_date ''node0'' (parseTransId ?q43) node1_killed));
                es = fst (replicateWrite ''node0'' ?q43 node1_killed);
                s' = snd (replicateWrite ''node0'' ?q43 node1_killed)
            in length es = length tgts
             \<and> (\<forall>j < length tgts.
               target (es ! j) = tgts ! j \<and> source (es ! j) = ''node0'' \<and> query (es ! j) = ?q43
             \<and> (simulatedFailures node1_killed (tgts ! j) \<longrightarrow>
                   status (es ! j) = Failed
                 \<and> error (es ! j)
                     = Some (''Node '' @ tgts ! j @ '' is offline (simulated failure)'')
                 \<and> pools s' (tgts ! j) = pools node1_killed (tgts ! j))
             \<and> (\<not> simulatedFailures node1_killed (tgts ! j) \<longrightarrow>
                   calls (pools s' (tgts ! j)) = Suc (calls (pools node1_killed (tgts ! j)))
                 \<and> (case refuse (pools node1_killed (tgts ! j))
                           (calls (pools node1_killed (tgts ! j))) of
                      Some msg \<Rightarrow>
                        status (es ! j) = Failed \<and> error (es ! j) = Some msg
                      \<and> sent (pools s' (tgts ! j)) = sent (pools node1_killed (tgts ! j))
                    | None \<Rightarrow>
                        sent (pools s' (tgts ! j)) = sent (pools node1_killed (tgts ! j)) @ [?q43]
                      \<and> (case answer (pools node1_killed (tgts ! j))
                                  (Suc (calls (pools node1_killed (tgts ! j)))) ?q43 of
                            Inl msg \<Rightarrow> status (es ! j) = Failed \<and> error (es ! j) = Some msg
                          | Inr r \<Rightarrow>
                              status (es ! j) = Replicated \<and> error (es ! j) = None))))"
    using replicateWrite_entries [where s = node1_killed and src = "''node0''" and q = ?q43
                   and tgt = "''node2''"] write_samples(2)
    by blast
  have a: "length (fst (replicateWrite ''node0'' ?q42 node1_killed)) = 1
     \<and> status (fst (replicateWrite ''node0'' ?q42 node1_killed) ! 0) = Failed
     \<and> error (fst (replicateWrite ''node0'' ?q42 node1_killed) ! 0)
         = Some ''Node node1 is offline (simulated failure)''
     \<and> pools (snd (replicateWrite ''node0'' ?q42 node1_killed)) ''node1''
         = pools node1_killed ''node1''"
    using w1 f1 unfolding Let_def tg1 by simp
  have b: "length (fst (replicateWrite ''node0'' ?q43 node1_killed)) = 1
     \<and> target (fst (replicateWrite ''node0'' ?q43 node1_killed) ! 0) = ''node2''
     \<and> status (fst (replicateWrite ''node0'' ?q43 node1_killed) ! 0) = Replicated
     \<and> sent (pools (snd (replicateWrite ''node0'' ?q43 node1_killed)) ''node2'') = [?q43]"
    using w2 f2 o1 o2 o3 unfolding Let_def tg2 by simp
  show ?thesis using write_samples(1,2) f1 f2 a b by blast
qed


lemma after_sleeps_frame:
  "pools (after_sleeps sched n s) = pools s"
  "uuids (after_sleeps sched n s) = uuids s"
  "replicationQueue (after_sleeps sched n s) = replicationQueue s"
  "transactionLog (after_sleeps sched n s) = transactionLog s"
  "simulatedFailures (after_sleeps sched n s) = simulatedFailures s"
  by (induction n) (simp_all add: sleep_def)

lemma startTransaction_frame:
  assumes "startTransaction sched tid node s = (r, n, s')"
  shows "pools s' = pools s \<and> uuids s' = uuids s \<and> replicationQueue s' = replicationQueue s
       \<and> transactionLog s' = transactionLog s \<and> simulatedFailures s' = simulatedFailures s"
proof (cases "truthy tid \<and> activeTransactions s (the tid) \<noteq> None")
  case False
  then have "s' = s \<or> s' = s\<lparr>activeTransactions :=
      (activeTransactions s)(the tid \<mapsto> \<lparr>owner = node, startTime = now s\<rparr>)\<rparr>"
    using assms by (cases "truthy tid") (auto simp: startTransaction_def Let_def)
  then show ?thesis by auto
next
  case True
  obtain r0 n0 s0 where w: "startTransaction_wait sched (the tid) (now s) 0 s = (r0, n0, s0)"
    by (cases "startTransaction_wait sched (the tid) (now s) 0 s") auto
  have "s0 = after_sleeps sched n0 s"
    using startTransaction_wait_spec [OF _ w, of s] by simp
  then have "pools s0 = pools s \<and> uuids s0 = uuids s \<and> replicationQueue s0 = replicationQueue s
       \<and> transactionLog s0 = transactionLog s \<and> simulatedFailures s0 = simulatedFailures s"
    by (simp add: after_sleeps_frame)
  then show ?thesis
    using assms True w by (auto simp: startTransaction_def Let_def split: sum.splits)
qed

lemma startTransaction_installs:
  assumes "startTransaction sched tid node s = (Inr u, n, s')" and "truthy tid"
  shows "activeTransactions s' (the tid) = Some \<lparr>owner = node, startTime = now s'\<rparr>"
  using assms
  by (auto simp: startTransaction_def Let_def split: sum.splits prod.splits if_splits)

lemma canReadProceed_frame:
  assumes "canReadProceed sched tid lvl s = (r, n, s')"
  shows "pools s' = pools s \<and> uuids s' = uuids s \<and> replicationQueue s' = replicationQueue s
       \<and> transactionLog s' = transactionLog s \<and> simulatedFailures s' = simulatedFailures s"
proof (cases "truthy tid \<and> activeTransactions s (the tid) \<noteq> None \<and> lvl \<noteq> ''READ_UNCOMMITTED''")
  case False
  then have "s' = s" using assms by (auto simp: canReadProceed_def split: if_splits)
  then show ?thesis by simp
next
  case True
  have "s' = after_sleeps sched n s"
    using canReadProceed_strict_result [OF assms] True by blast
  then show ?thesis by (simp add: after_sleeps_frame)
qed

lemma commitTransaction_frame:
  "pools (commitTransaction tid s) = pools s"
  "uuids (commitTransaction tid s) = uuids s"
  "replicationQueue (commitTransaction tid s) = replicationQueue s"
  "transactionLog (commitTransaction tid s) = transactionLog s"
  "simulatedFailures (commitTransaction tid s) = simulatedFailures s"
  "now (commitTransaction tid s) = now s"
  by (simp_all add: commitTransaction_def)

lemma commitTransaction_clears:
  "truthy tid \<Longrightarrow> activeTransactions (commitTransaction tid s) (the tid) = None"
  by (simp add: commitTransaction_def)

text \<open>The stages of the \<open>try\<close> block, named.\<close>

lemma execute_try_stages:
  obtains
    (refused) msg s1 where
      "getConnection node s = (Some msg, s1)"
      "execute_try sched node qry lvl s = (Inl (StoreError msg), s1)"
  | (lock_timeout) s1 f n s2 where
      "getConnection node s = (None, s1)"
      "isWriteQuery qry" "truthy (parseTransId qry)"
      "startTransaction sched (parseTransId qry) node s1 = (Inl f, n, s2)"
      "execute_try sched node qry lvl s = (Inl f, s2)"
  | (read_timeout) s1 f n s2 where
      "getConnection node s = (None, s1)"
      "\<not> isWriteQuery qry" "truthy (parseTransId qry)"
      "canReadProceed sched (parseTransId qry) lvl s1 = (Inl f, n, s2)"
      "execute_try sched node qry lvl s = (Inl f, s2)"
  | (admitted) s1 s3 r s4 where
      "getConnection node s = (None, s1)"
      "(isWriteQuery qry \<and> truthy (parseTransId qry) \<and>
          (\<exists>u n. startTransaction sched (parseTransId qry) node s1 = (Inr u, n, s3)))
       \<or> (\<not> isWriteQuery qry \<and> truthy (parseTransId qry) \<and>
          (\<exists>b n. canReadProceed sched (parseTransId qry) lvl s1 = (Inr b, n, s3)))
       \<or> (\<not> truthy (parseTransId qry) \<and> s3 = s1)"
      "conn_query node qry s3 = (r, s4)"
      "execute_try sched node qry lvl s =
         (case r of
            Inl msg \<Rightarrow> (Inl (StoreError msg), s4)
          | Inr results \<Rightarrow>
              (Inr (results, fst (replicateWrite node qry s4)), snd (replicateWrite node qry s4)))"
proof -
  obtain c s1 where g: "getConnection node s = (c, s1)" by (cases "getConnection node s")
  show thesis
  proof (cases c)
    case (Some msg)
    then show thesis using g refused by (simp add: execute_try_def Let_def)
  next
    case None
    note c = None
    show thesis
    proof (cases "truthy (parseTransId qry)")
      case False
      obtain r s4 where q: "conn_query node qry s1 = (r, s4)" by (cases "conn_query node qry s1")
      show thesis
        using admitted [of s1 s1 r s4] g c False q
        by (auto simp: execute_try_def Let_def split: sum.splits prod.splits)
    next
      case True
      note t = True
      show thesis
      proof (cases "isWriteQuery qry")
        case True
        obtain a n s2 where st: "startTransaction sched (parseTransId qry) node s1 = (a, n, s2)"
          by (cases "startTransaction sched (parseTransId qry) node s1") auto
        show thesis
        proof (cases a)
          case (Inl f)
          then show thesis using lock_timeout [of s1 f n s2] g c t True st
            by (simp add: execute_try_def Let_def)
        next
          case (Inr u)
          obtain r s4 where q: "conn_query node qry s2 = (r, s4)" by (cases "conn_query node qry s2")
          show thesis
            using admitted [of s1 s2 r s4] g c t True st Inr q
            by (auto simp: execute_try_def Let_def split: sum.splits prod.splits)
        qed
      next
        case False
        obtain a n s2 where st: "canReadProceed sched (parseTransId qry) lvl s1 = (a, n, s2)"
          by (cases "canReadProceed sched (parseTransId qry) lvl s1") auto
        show thesis
        proof (cases a)
          case (Inl f)
          then show thesis using read_timeout [of s1 f n s2] g c t False st
            by (simp add: execute_try_def Let_def)
        next
          case (Inr b)
          obtain r s4 where q: "conn_query node qry s2 = (r, s4)" by (cases "conn_query node qry s2")
          show thesis
            using admitted [of s1 s2 r s4] g c t False st Inr q
            by (auto simp: execute_try_def Let_def split: sum.splits prod.splits)
        qed
      qed
    qed
  qed
qed


lemma getConnection_eq:
  "getConnection node s = (c, s1) \<Longrightarrow>
     c = refuse (pools s node) (calls (pools s node))
   \<and> s1 = s\<lparr>pools := (pools s)(node := (pools s node)\<lparr>calls := Suc (calls (pools s node))\<rparr>)\<rparr>"
  by (auto simp: getConnection_def Let_def)

lemma conn_query_eq:
  "conn_query node stmt s = (r, s1) \<Longrightarrow>
     r = answer (pools s node) (calls (pools s node)) stmt
   \<and> s1 = s\<lparr>pools := (pools s)(node := (pools s node)\<lparr>sent := sent (pools s node) @ [stmt]\<rparr>)\<rparr>"
  by (auto simp: conn_query_def Let_def)

lemma execute_try_frame:
  "transactionLog (snd (execute_try sched node qry lvl s)) = transactionLog s
 \<and> simulatedFailures (snd (execute_try sched node qry lvl s)) = simulatedFailures s
 \<and> (case fst (execute_try sched node qry lvl s) of
       Inl f \<Rightarrow> replicationQueue (snd (execute_try sched node qry lvl s)) = replicationQueue s
     | Inr (results, reps) \<Rightarrow>
         replicationQueue (snd (execute_try sched node qry lvl s)) = replicationQueue s @ reps)"
proof (cases rule: execute_try_stages [of node s sched qry lvl])
  case (refused msg s1)
  then show ?thesis using getConnection_eq [of node s "Some msg" s1] by auto
next
  case (lock_timeout s1 f n s2)
  then show ?thesis
    using getConnection_eq [of node s None s1]
          startTransaction_frame [of sched "parseTransId qry" node s1 "Inl f" n s2]
    by auto
next
  case (read_timeout s1 f n s2)
  then show ?thesis
    using getConnection_eq [of node s None s1]
          canReadProceed_frame [of sched "parseTransId qry" lvl s1 "Inl f" n s2]
    by auto
next
  case (admitted s1 s3 r s4)
  have a: "transactionLog s1 = transactionLog s \<and> simulatedFailures s1 = simulatedFailures s
         \<and> replicationQueue s1 = replicationQueue s"
    using getConnection_eq [of node s None s1] admitted(1) by auto
  have b: "transactionLog s3 = transactionLog s1 \<and> simulatedFailures s3 = simulatedFailures s1
         \<and> replicationQueue s3 = replicationQueue s1"
    using admitted(2) startTransaction_frame [of sched "parseTransId qry" node s1 _ _ s3]
          canReadProceed_frame [of sched "parseTransId qry" lvl s1 _ _ s3]
    by blast
  have c: "transactionLog s4 = transactionLog s3 \<and> simulatedFailures s4 = simulatedFailures s3
         \<and> replicationQueue s4 = replicationQueue s3"
    using conn_query_eq [of node qry s3 r s4] admitted(3) by auto
  show ?thesis
  proof (cases r)
    case (Inl msg)
    then show ?thesis using admitted(4) a b c by simp
  next
    case (Inr results)
    then show ?thesis
      using admitted(4) a b c replicateWrite_queue [of node qry s4]
            replicateWrite_frame(2,3) [of node qry s4]
      by simp
  qed
qed


lemma execute_rejected:
  "known_node node \<Longrightarrow> simulatedFailures s node \<Longrightarrow>
   execute sched node qry lvl s = (Node_offline node (uuids s), s\<lparr>uuids := Suc (uuids s)\<rparr>)"
  by (simp add: execute_def uuidv4_def)

text \<open>What the handler does with the outcome of the \<open>try\<close> block.\<close>

lemma execute_admitted:
  assumes "known_node node" and "\<not> simulatedFailures s node"
      and "execute_try sched node qry (effective_isolation lvl) (s\<lparr>uuids := Suc (uuids s)\<rparr>)
             = (x, s1)"
  shows "execute sched node qry lvl s =
     (case x of
        Inr (results, reps) \<Rightarrow>
          (Succeeded (uuids s) results (map (\<lambda>r. (target r, status r)) reps)
             \<lparr>log_transactionId = uuids s, log_node = node, log_query = qry,
              log_isolationLevel = effective_isolation lvl, log_startTime = now s,
              log_status = ''committed'', log_endTime = Some (now s1),
              log_results = Some results, log_error = None,
              log_replication = Some (map (\<lambda>r. (target r, status r)) reps)\<rparr>,
           (if truthy (parseTransId qry) then commitTransaction (parseTransId qry) s1 else s1)
             \<lparr>transactionLog :=
                transactionLog s1 @
                [\<lparr>log_transactionId = uuids s, log_node = node, log_query = qry,
                  log_isolationLevel = effective_isolation lvl, log_startTime = now s,
                  log_status = ''committed'', log_endTime = Some (now s1),
                  log_results = Some results, log_error = None,
                  log_replication = Some (map (\<lambda>r. (target r, status r)) reps)\<rparr>]\<rparr>)
      | Inl f \<Rightarrow>
          (Errored (uuids s) f
             \<lparr>log_transactionId = uuids s, log_node = node, log_query = qry,
              log_isolationLevel = effective_isolation lvl, log_startTime = now s,
              log_status = ''failed'', log_endTime = Some (now s1),
              log_results = None, log_error = Some f, log_replication = None\<rparr>,
           (if truthy (parseTransId qry) then commitTransaction (parseTransId qry) s1 else s1)
             \<lparr>transactionLog :=
                transactionLog s1 @
                [\<lparr>log_transactionId = uuids s, log_node = node, log_query = qry,
                  log_isolationLevel = effective_isolation lvl, log_startTime = now s,
                  log_status = ''failed'', log_endTime = Some (now s1),
                  log_results = None, log_error = Some f, log_replication = None\<rparr>]\<rparr>))"
  using assms
  by (auto simp: execute_def uuidv4_def Let_def commitTransaction_frame split: sum.splits)

text \<open>
  Claim C7, amended. An operation on a node whose fault flag is set is answered with
  the offline reply and leaves \<open>transactionLog\<close> as it was. Every other operation on
  one of the three nodes appends exactly one entry, the one in its reply:
  \<open>committed\<close> with the successful reply, \<open>failed\<close> with the error otherwise.
\<close>

theorem execute_log_entries:
  assumes "known_node node"
  shows "(simulatedFailures s node \<longrightarrow>
            fst (execute sched node qry lvl s) = Node_offline node (uuids s)
          \<and> transactionLog (snd (execute sched node qry lvl s)) = transactionLog s)
       \<and> (\<not> simulatedFailures s node \<longrightarrow>
            (case execute sched node qry lvl s of
               (Succeeded tid res rep le, s') \<Rightarrow>
                  transactionLog s' = transactionLog s @ [le] \<and> log_status le = ''committed''
             | (Errored tid f le, s') \<Rightarrow>
                  transactionLog s' = transactionLog s @ [le] \<and> log_status le = ''failed''
                  \<and> log_error le = Some f
             | (Invalid_node, s') \<Rightarrow> False
             | (Node_offline n tid, s') \<Rightarrow> False))"
proof -
  obtain x s1 where t: "execute_try sched node qry (effective_isolation lvl)
                          (s\<lparr>uuids := Suc (uuids s)\<rparr>) = (x, s1)"
    by (cases "execute_try sched node qry (effective_isolation lvl) (s\<lparr>uuids := Suc (uuids s)\<rparr>)")
  have l: "transactionLog s1 = transactionLog s"
    using execute_try_frame [of sched node qry "effective_isolation lvl" "s\<lparr>uuids := Suc (uuids s)\<rparr>"] t
    by simp
  have a: "simulatedFailures s node \<longrightarrow>
            fst (execute sched node qry lvl s) = Node_offline node (uuids s)
          \<and> transactionLog (snd (execute sched node qry lvl s)) = transactionLog s"
    using execute_rejected [OF assms, of s sched qry lvl] by simp
  have b: "\<not> simulatedFailures s node \<longrightarrow>
            (case execute sched node qry lvl s of
               (Succeeded tid res rep le, s') \<Rightarrow>
                  transactionLog s' = transactionLog s @ [le] \<and> log_status le = ''committed''
             | (Errored tid f le, s') \<Rightarrow>
                  transactionLog s' = transactionLog s @ [le] \<and> log_status le = ''failed''
                  \<and> log_error le = Some f
             | (Invalid_node, s') \<Rightarrow> False
             | (Node_offline n tid, s') \<Rightarrow> False)"
  proof
    assume f: "\<not> simulatedFailures s node"
    show "case execute sched node qry lvl s of
               (Succeeded tid res rep le, s') \<Rightarrow>
                  transactionLog s' = transactionLog s @ [le] \<and> log_status le = ''committed''
             | (Errored tid f le, s') \<Rightarrow>
                  transactionLog s' = transactionLog s @ [le] \<and> log_status le = ''failed''
                  \<and> log_error le = Some f
             | (Invalid_node, s') \<Rightarrow> False
             | (Node_offline n tid, s') \<Rightarrow> False"
      unfolding execute_admitted [OF assms f t] using l
      by (cases x) (auto split: prod.splits)
  qed
  show ?thesis using a b by blast
qed


lemma startTransaction_wait_same_locks:
  assumes "activeTransactions t = activeTransactions s" and "now t = now s"
  shows "fst (startTransaction_wait sched k st n t) = fst (startTransaction_wait sched k st n s)"
  using assms
proof (induction sched k st n s arbitrary: t rule: startTransaction_wait.induct)
  case (1 sched k st n s)
  show ?case
  proof (cases "activeTransactions s k \<noteq> None \<and> \<not> now s - st > TRANSACTION_TIMEOUT")
    case True
    have c1: "activeTransactions s k \<noteq> None" and c2: "\<not> TRANSACTION_TIMEOUT < now s - st"
      using True by simp_all
    have e1: "activeTransactions (sleep (sched n) t) = activeTransactions (sleep (sched n) s)"
      using "1.prems" by (simp add: sleep_def)
    have e2: "now (sleep (sched n) t) = now (sleep (sched n) s)"
      using "1.prems" by (simp add: sleep_def)
    show ?thesis
      using "1.IH" [OF c1 c2 e1 e2] True "1.prems"
      by (simp add: startTransaction_wait.simps [of sched k st n s]
                    startTransaction_wait.simps [of sched k st n t])
  next
    case False
    then show ?thesis
      using "1.prems"
      by (auto simp: startTransaction_wait.simps [of sched k st n s]
                     startTransaction_wait.simps [of sched k st n t])
  qed
qed

lemma startTransaction_same_locks:
  assumes "activeTransactions t = activeTransactions s" and "now t = now s"
  shows "fst (startTransaction sched tid node t) = fst (startTransaction sched tid node s)"
proof (cases "truthy tid \<and> activeTransactions s (the tid) \<noteq> None")
  case False
  then show ?thesis using assms by (cases "truthy tid") (auto simp: startTransaction_def Let_def)
next
  case True
  have "fst (startTransaction_wait sched (the tid) (now s) 0 t)
          = fst (startTransaction_wait sched (the tid) (now s) 0 s)"
    by (rule startTransaction_wait_same_locks [OF assms])
  then show ?thesis
    using True assms
    by (auto simp: startTransaction_def Let_def split: prod.splits sum.splits)
qed

lemma execute_try_write_applied:
  assumes "isWriteQuery qry"
      and "refuse (pools s node) (calls (pools s node)) = None"
      and "answer (pools s node) (Suc (calls (pools s node))) qry = Inr rows"
      and "truthy (parseTransId qry) \<longrightarrow>
             fst (startTransaction sched (parseTransId qry) node s) = Inr ()"
  shows "\<exists>reps. fst (execute_try sched node qry lvl s) = Inr (rows, reps)"
proof -
  show ?thesis
  proof (cases rule: execute_try_stages [of node s sched qry lvl])
    case (refused msg s1)
    then show ?thesis using getConnection_eq [of node s "Some msg" s1] assms(2) by simp
  next
    case (lock_timeout s1 f n s2)
    have "activeTransactions s1 = activeTransactions s \<and> now s1 = now s"
      using getConnection_eq [of node s None s1] lock_timeout(1) by auto
    then have "fst (startTransaction sched (parseTransId qry) node s1)
                 = fst (startTransaction sched (parseTransId qry) node s)"
      using startTransaction_same_locks by blast
    then show ?thesis using lock_timeout assms(4) by simp
  next
    case (read_timeout s1 f n s2)
    then show ?thesis using assms(1) by simp
  next
    case (admitted s1 s3 r s4)
    have p1: "pools s1 = (pools s)(node := (pools s node)\<lparr>calls := Suc (calls (pools s node))\<rparr>)"
      using getConnection_eq [of node s None s1] admitted(1) by auto
    have p3: "pools s3 = pools s1"
      using admitted(2) startTransaction_frame [of sched "parseTransId qry" node s1 _ _ s3]
            canReadProceed_frame [of sched "parseTransId qry" lvl s1 _ _ s3]
      by blast
    have "r = answer (pools s3 node) (calls (pools s3 node)) qry"
      using conn_query_eq [of node qry s3 r s4] admitted(3) by simp
    then have "r = Inr rows" using p1 p3 assms(3) by simp
    then show ?thesis using admitted(4) by (simp add: split_beta)
  qed
qed


text \<open>
  Claim C5. A write on an available node whose connection is granted, whose lock is
  acquired and whose own statement the store takes is answered with the successful
  reply: the rows, and the target and status of every entry that this operation
  appended to the queue, whatever those statuses are; its log entry is \<open>committed\<close>
  and carries no error.
\<close>

theorem write_commits_despite_replication_failures:
  assumes "known_node node" and "\<not> simulatedFailures s node" and "isWriteQuery qry"
      and "refuse (pools s node) (calls (pools s node)) = None"
      and "answer (pools s node) (Suc (calls (pools s node))) qry = Inr rows"
      and "truthy (parseTransId qry) \<longrightarrow>
             fst (startTransaction sched (parseTransId qry) node s) = Inr ()"
  shows "case execute sched node qry lvl s of
           (Succeeded tid res rep le, s') \<Rightarrow>
              tid = uuids s \<and> res = rows
            \<and> rep = map (\<lambda>e. (target e, status e))
                      (drop (length (replicationQueue s)) (replicationQueue s'))
            \<and> take (length (replicationQueue s)) (replicationQueue s') = replicationQueue s
            \<and> log_status le = ''committed'' \<and> log_error le = None
            \<and> log_replication le = Some rep
            \<and> transactionLog s' = transactionLog s @ [le]
         | (Errored tid f le, s') \<Rightarrow> False
         | (Invalid_node, s') \<Rightarrow> False
         | (Node_offline n tid, s') \<Rightarrow> False"
proof -
  let ?s0 = "s\<lparr>uuids := Suc (uuids s)\<rparr>"
  have lk: "truthy (parseTransId qry) \<longrightarrow>
             fst (startTransaction sched (parseTransId qry) node ?s0) = Inr ()"
    using assms(6) startTransaction_same_locks [of ?s0 s sched "parseTransId qry" node] by simp
  obtain reps where r: "fst (execute_try sched node qry (effective_isolation lvl) ?s0)
                          = Inr (rows, reps)"
    using execute_try_write_applied [of qry ?s0 node rows sched "effective_isolation lvl"]
          assms(3,4,5) lk by auto
  obtain s1 where t: "execute_try sched node qry (effective_isolation lvl) ?s0
                        = (Inr (rows, reps), s1)"
    using r by (cases "execute_try sched node qry (effective_isolation lvl) ?s0") auto
  have fr: "transactionLog s1 = transactionLog s \<and> replicationQueue s1 = replicationQueue s @ reps"
    using execute_try_frame [of sched node qry "effective_isolation lvl" ?s0] t by simp
  show ?thesis
    unfolding execute_admitted [OF assms(1,2) t] using fr
    by (simp add: commitTransaction_frame)
qed

lemma known_nodes: "known_node ''node0''" "known_node ''node1''" "known_node ''node2''"
  by (simp_all add: known_node_def node_names_def)

theorem write_commits_despite_replication_failures_witness:
  "case execute quiet ''node0'' ''UPDATE trans SET amount = 5 WHERE trans_id = 44'' None
          fragments_killed of
     (Succeeded tid res rep le, s') \<Rightarrow>
        rep = [(''node1'', Failed), (''node2'', Failed)] \<and> log_status le = ''committed''
        \<and> transactionLog s' = [le]
   | (Errored tid f le, s') \<Rightarrow> False
   | (Invalid_node, s') \<Rightarrow> False
   | (Node_offline n tid, s') \<Rightarrow> False"
proof -
  let ?q = "''UPDATE trans SET amount = 5 WHERE trans_id = 44''"
  have h2: "\<not> simulatedFailures fragments_killed ''node0''"
    by (simp add: fragments_killed_def)
  have h4: "refuse (pools fragments_killed ''node0'') (calls (pools fragments_killed ''node0'')) = None"
    by (simp add: fragments_killed_def sample_defs)
  have h5: "answer (pools fragments_killed ''node0'')
              (Suc (calls (pools fragments_killed ''node0''))) ?q = Inr []"
    by (simp add: fragments_killed_def sample_defs)
  have h6: "truthy (parseTransId ?q) \<longrightarrow>
             fst (startTransaction quiet (parseTransId ?q) ''node0'' fragments_killed) = Inr ()"
    by (simp add: parse_update_44 startTransaction_def truthy_def fragments_killed_def sample_defs)
  have q: "replicationQueue fragments_killed = []"
    by (simp add: fragments_killed_def sample_defs)
  have l: "transactionLog fragments_killed = []"
    by (simp add: fragments_killed_def sample_defs)
  have ev: "map (\<lambda>e. (target e, status e))
              (replicationQueue (snd (execute quiet ''node0'' ?q None fragments_killed)))
             = [(''node1'', Failed), (''node2'', Failed)]"
    by (simp add: execute_def execute_try_def known_nodes Let_def write_samples
          parse_update_44 truthy_def startTransaction_def commitTransaction_def
          effective_isolation_def replicateWrite_def
          write_samples [unfolded isWriteQuery_def Let_def]
          fetch_record_date_def store_defs replication_targets_def
          replicate_to_def fragments_killed_def sample_defs)
  show ?thesis
    using write_commits_despite_replication_failures [OF known_nodes(1) h2 write_samples(3) h4 h5 h6, of None] ev
    by (auto simp: q l split: prod.splits response.splits)
qed


text \<open>
  Claim C7 as stated fails: a write sent to the killed \<open>node1\<close> is rejected and
  nothing is appended to the log.
\<close>

theorem rejected_operation_not_logged:
  "fst (execute quiet ''node1'' ''UPDATE trans SET amount = 5 WHERE trans_id = 42'' None
          node1_killed) = Node_offline ''node1'' 0
 \<and> transactionLog (snd (execute quiet ''node1''
          ''UPDATE trans SET amount = 5 WHERE trans_id = 42'' None node1_killed))
     = transactionLog node1_killed
 \<and> length (transactionLog (snd (execute quiet ''node1''
          ''UPDATE trans SET amount = 5 WHERE trans_id = 42'' None node1_killed)))
     \<noteq> Suc (length (transactionLog node1_killed))"
  by (simp add: execute_def known_nodes uuidv4_def node1_killed_def sample_defs)

theorem execute_log_entries_witness:
  "known_node ''node1'' \<and> simulatedFailures node1_killed ''node1''
 \<and> \<not> simulatedFailures node1_killed ''node0''
 \<and> fst (execute quiet ''node1'' ''UPDATE trans SET amount = 5 WHERE trans_id = 42'' None
          node1_killed) = Node_offline ''node1'' (uuids node1_killed)
 \<and> (case execute quiet ''node0'' ''UPDATE trans SET amount = 5 WHERE trans_id = 42'' None
            node1_killed of
       (Succeeded tid res rep le, s') \<Rightarrow>
          transactionLog s' = transactionLog node1_killed @ [le] \<and> log_status le = ''committed''
     | (Errored tid f le, s') \<Rightarrow>
          transactionLog s' = transactionLog node1_killed @ [le] \<and> log_status le = ''failed''
          \<and> log_error le = Some f
     | (Invalid_node, s') \<Rightarrow> False
     | (Node_offline n tid, s') \<Rightarrow> False)"
proof -
  have f1: "simulatedFailures node1_killed ''node1''" by (simp add: node1_killed_def)
  have f0: "\<not> simulatedFailures node1_killed ''node0''" by (simp add: node1_killed_def)
  have a: "fst (execute quiet ''node1'' ''UPDATE trans SET amount = 5 WHERE trans_id = 42'' None
          node1_killed) = Node_offline ''node1'' (uuids node1_killed)"
    using mp [OF conjunct1 [OF execute_log_entries [OF known_nodes(2), of node1_killed quiet
                "''UPDATE trans SET amount = 5 WHERE trans_id = 42''" None]] f1]
    by (rule conjunct1)
  have b: "case execute quiet ''node0'' ''UPDATE trans SET amount = 5 WHERE trans_id = 42'' None
            node1_killed of
       (Succeeded tid res rep le, s') \<Rightarrow>
          transactionLog s' = transactionLog node1_killed @ [le] \<and> log_status le = ''committed''
     | (Errored tid f le, s') \<Rightarrow>
          transactionLog s' = transactionLog node1_killed @ [le] \<and> log_status le = ''failed''
          \<and> log_error le = Some f
     | (Invalid_node, s') \<Rightarrow> False
     | (Node_offline n tid, s') \<Rightarrow> False"
    by (rule mp [OF conjunct2 [OF execute_log_entries [OF known_nodes(1), of node1_killed quiet
                "''UPDATE trans SET amount = 5 WHERE trans_id = 42''" None]] f0])
  show ?thesis by (intro conjI known_nodes(2) f1 f0 a b)
qed

text \<open>The handler among other requests: what the interference leaves alone.\<close>

lemma interfere_frame:
  "activeTransactions (interfere f s) = f (activeTransactions s)"
  "replicationQueue (interfere f s) = replicationQueue s"
  "transactionLog (interfere f s) = transactionLog s"
  "simulatedFailures (interfere f s) = simulatedFailures s"
  "pools (interfere f s) = pools s"
  "now (interfere f s) = now s"
  "uuids (interfere f s) = uuids s"
  by (simp_all add: interfere_def)

lemma execute_try_among_alone:
  "execute_try_among sched (\<lambda>m. m) (\<lambda>m. m) node qry lvl s = execute_try sched node qry lvl s"
proof -
  have i: "interfere (\<lambda>m. m) = (\<lambda>t. t)" by (intro ext) (simp add: interfere_def)
  show ?thesis unfolding execute_try_among_def execute_try_def i by (rule refl)
qed

lemma execute_among_alone:
  "execute_among sched (\<lambda>m. m) (\<lambda>m. m) node qry lvl s = execute sched node qry lvl s"
proof -
  have e: "execute_try_among sched (\<lambda>m. m) (\<lambda>m. m) = execute_try sched"
    by (intro ext) (rule execute_try_among_alone)
  show ?thesis unfolding execute_among_def execute_def e by (rule refl)
qed

lemma execute_try_among_write:
  assumes "isWriteQuery qry" and "truthy (parseTransId qry)"
  shows "execute_try_among sched f1 f2 node qry lvl s =
     (case getConnection node s of
        (Some msg, s1) \<Rightarrow> (Inl (StoreError msg), s1)
      | (None, s1) \<Rightarrow>
          (case startTransaction sched (parseTransId qry) node s1 of
             (Inl f, n, s2) \<Rightarrow> (Inl f, s2)
           | (Inr u, n, s2) \<Rightarrow>
               (case conn_query node qry s2 of
                  (Inl msg, s4) \<Rightarrow> (Inl (StoreError msg), interfere f1 s4)
                | (Inr results, s4) \<Rightarrow>
                    (Inr (results, fst (replicateWrite node qry (interfere f1 s4))),
                     interfere f2 (snd (replicateWrite node qry (interfere f1 s4)))))))"
  using assms
  by (simp add: execute_try_among_def Let_def split_beta
           split: prod.splits option.splits sum.splits)

lemma execute_among_releases:
  assumes "truthy (parseTransId qry)" and "known_node node" and "\<not> simulatedFailures s node"
  shows "activeTransactions (snd (execute_among sched f1 f2 node qry lvl s))
           (the (parseTransId qry)) = None"
proof -
  obtain x s1 where t: "execute_try_among sched f1 f2 node qry (effective_isolation lvl)
                          (s\<lparr>uuids := Suc (uuids s)\<rparr>) = (x, s1)"
    by (cases "execute_try_among sched f1 f2 node qry (effective_isolation lvl)
                 (s\<lparr>uuids := Suc (uuids s)\<rparr>)")
  show ?thesis
    using assms t commitTransaction_clears [of "parseTransId qry" s1]
    by (cases x) (auto simp: execute_among_def uuidv4_def Let_def split: prod.splits)
qed

lemma execute_try_among_marker:
  assumes "isWriteQuery qry" and "truthy (parseTransId qry)"
  shows "case execute_try_among sched f1 f2 node qry lvl s of
            (Inr (results, reps), s5) \<Rightarrow>
               replicationQueue s5 = replicationQueue s @ reps
             \<and> ((\<forall>m. f1 m (the (parseTransId qry)) = m (the (parseTransId qry)))
                \<and> (\<forall>m. f2 m (the (parseTransId qry)) = m (the (parseTransId qry))) \<longrightarrow>
                  activeTransactions s5 (the (parseTransId qry))
                    = Some \<lparr>owner = node, startTime = now s5\<rparr>)
          | (Inl f, s5) \<Rightarrow> replicationQueue s5 = replicationQueue s"
proof -
  obtain c s1 where g: "getConnection node s = (c, s1)" by (cases "getConnection node s")
  have q1: "replicationQueue s1 = replicationQueue s"
    using getConnection_eq [OF g] by simp
  show ?thesis
  proof (cases c)
    case (Some msg)
    then show ?thesis using g q1 by (simp add: execute_try_among_write [OF assms])
  next
    case None
    note c = None
    obtain a n s2 where st: "startTransaction sched (parseTransId qry) node s1 = (a, n, s2)"
      by (cases "startTransaction sched (parseTransId qry) node s1") auto
    have q2: "replicationQueue s2 = replicationQueue s1"
      using startTransaction_frame [OF st] by simp
    show ?thesis
    proof (cases a)
      case (Inl f)
      then show ?thesis using g c st q1 q2 by (simp add: execute_try_among_write [OF assms])
    next
      case (Inr u)
      obtain r s4 where q: "conn_query node qry s2 = (r, s4)" by (cases "conn_query node qry s2")
      have m2: "activeTransactions s2 (the (parseTransId qry))
                  = Some \<lparr>owner = node, startTime = now s2\<rparr>"
        using startTransaction_installs [OF st [unfolded Inr] assms(2)] .
      have m4: "activeTransactions s4 = activeTransactions s2 \<and> now s4 = now s2
              \<and> replicationQueue s4 = replicationQueue s2"
        using conn_query_eq [OF q] by auto
      show ?thesis
      proof (cases r)
        case (Inl msg)
        then show ?thesis using g c st Inr q q1 q2 m4
          by (simp add: execute_try_among_write [OF assms] interfere_frame)
      next
        case (Inr results)
        then show ?thesis
          using g c st \<open>a = Inr u\<close> q q1 q2 m2 m4
                replicateWrite_frame(1,4) [of node qry "interfere f1 s4"]
                replicateWrite_queue [of node qry "interfere f1 s4"]
          by (simp add: execute_try_among_write [OF assms] interfere_frame)
      qed
    qed
  qed
qed

text \<open>
  Claim C9, amended. The statement is made of the handler among other requests:
  \<open>at_query\<close> is what they do to the markers while the handler awaits its own
  statement, \<open>at_replication\<close> what they do while it awaits \<open>replicateWrite\<close>.

  A write with a key on an available node ends with no marker on its key, whether it
  succeeded or failed and whatever the other requests did: this is the handler's own
  release, the \<open>commitTransaction\<close> it calls after \<open>replicateWrite\<close> has returned or in
  its \<open>catch\<close> block. When the \<open>try\<close> block has come back from \<open>replicateWrite\<close> the
  entries of the replication are in the queue, and, provided that the other requests
  left the marker of this key as it was at both awaits, the marker installed for the
  write is still there: the handler itself holds it across the replication and
  releases it only afterwards. When the \<open>try\<close> block is left by an exception, nothing
  has been replicated. With no other request at the two awaits, the handler is
  \<open>execute\<close> and its \<open>try\<close> block \<open>execute_try\<close>.
\<close>

theorem marker_released_after_replication:
  assumes "isWriteQuery qry" and "truthy (parseTransId qry)"
  shows "(known_node node \<and> \<not> simulatedFailures s node \<longrightarrow>
            activeTransactions (snd (execute_among sched at_query at_replication node qry lvl s))
              (the (parseTransId qry)) = None)
       \<and> (case execute_try_among sched at_query at_replication node qry lvl' s of
            (Inr (results, reps), s5) \<Rightarrow>
               replicationQueue s5 = replicationQueue s @ reps
             \<and> ((\<forall>m. at_query m (the (parseTransId qry)) = m (the (parseTransId qry)))
                \<and> (\<forall>m. at_replication m (the (parseTransId qry)) = m (the (parseTransId qry))) \<longrightarrow>
                  activeTransactions s5 (the (parseTransId qry))
                    = Some \<lparr>owner = node, startTime = now s5\<rparr>)
          | (Inl f, s5) \<Rightarrow> replicationQueue s5 = replicationQueue s)
       \<and> execute_try_among sched (\<lambda>m. m) (\<lambda>m. m) node qry lvl' s
           = execute_try sched node qry lvl' s
       \<and> execute_among sched (\<lambda>m. m) (\<lambda>m. m) node qry lvl s = execute sched node qry lvl s"
  using execute_among_releases [OF assms(2), where node = node and s = s and sched = sched
                                   and ?f1.0 = at_query and ?f2.0 = at_replication and lvl = lvl]
        execute_try_among_marker [OF assms, where sched = sched and ?f1.0 = at_query
                                   and ?f2.0 = at_replication and node = node and lvl = lvl'
                                   and s = s]
        execute_try_among_alone [of sched node qry lvl' s]
        execute_among_alone [of sched node qry lvl s]
  by blast

text \<open>
  Claim C9 as stated fails: after the write of record 42 on \<open>node0\<close> has been
  replicated to \<open>node1\<close>, its marker is still installed.
\<close>

theorem marker_held_across_replication:
  "fst (execute_try quiet ''node0'' ''UPDATE trans SET amount = 5 WHERE trans_id = 42''
          ''READ_COMMITTED'' sample_server)
     = Inr ([], [\<lparr>entry_id = 0, source = ''node0'', target = ''node1'',
                 query = ''UPDATE trans SET amount = 5 WHERE trans_id = 42'',
                 status = Replicated, error = None, time = 1000, recoveryTime = None\<rparr>])
 \<and> activeTransactions (snd (execute_try quiet ''node0''
          ''UPDATE trans SET amount = 5 WHERE trans_id = 42'' ''READ_COMMITTED'' sample_server)) 42
     = Some \<lparr>owner = ''node0'', startTime = 1000\<rparr>
 \<and> sent (pools (snd (execute_try quiet ''node0''
          ''UPDATE trans SET amount = 5 WHERE trans_id = 42'' ''READ_COMMITTED'' sample_server))
          ''node1'')
     = [''UPDATE trans SET amount = 5 WHERE trans_id = 42'']"
  by (simp add: execute_try_def Let_def write_samples
          parse_update_42 truthy_def startTransaction_def replicateWrite_def
          write_samples [unfolded isWriteQuery_def Let_def]
          fetch_record_date_def store_defs replication_targets_def FRAG_BOUNDARY_def
          replicate_to_def sample_defs)

text \<open>
  An instance: while the write of record 42 awaits its statement another write takes
  the marker of record 7, and gives it back while the first awaits its replication.
\<close>

lemma write_42_among_others:
  "now (snd (execute_try_among quiet
          (\<lambda>m. m(7 \<mapsto> \<lparr>owner = ''node1'', startTime = 1000\<rparr>)) (\<lambda>m. m(7 := None)) ''node0''
          ''UPDATE trans SET amount = 5 WHERE trans_id = 42'' ''READ_COMMITTED'' sample_server))
     = 1000
 \<and> fst (execute_try_among quiet
          (\<lambda>m. m(7 \<mapsto> \<lparr>owner = ''node1'', startTime = 1000\<rparr>)) (\<lambda>m. m(7 := None)) ''node0''
          ''UPDATE trans SET amount = 5 WHERE trans_id = 42'' ''READ_COMMITTED'' sample_server)
     = Inr ([], [\<lparr>entry_id = 0, source = ''node0'', target = ''node1'',
                 query = ''UPDATE trans SET amount = 5 WHERE trans_id = 42'',
                 status = Replicated, error = None, time = 1000, recoveryTime = None\<rparr>])"
  by (simp add: execute_try_among_def interfere_def Let_def write_samples
          parse_update_42 truthy_def startTransaction_def replicateWrite_def
          write_samples [unfolded isWriteQuery_def Let_def]
          fetch_record_date_def store_defs replication_targets_def FRAG_BOUNDARY_def
          replicate_to_def sample_defs)

theorem marker_released_after_replication_witness:
  "isWriteQuery ''UPDATE trans SET amount = 5 WHERE trans_id = 42''
 \<and> truthy (parseTransId ''UPDATE trans SET amount = 5 WHERE trans_id = 42'')
 \<and> known_node ''node0'' \<and> \<not> simulatedFailures sample_server ''node0''
 \<and> (\<forall>m. (m(7 \<mapsto> \<lparr>owner = ''node1'', startTime = 1000\<rparr>))
            (the (parseTransId ''UPDATE trans SET amount = 5 WHERE trans_id = 42''))
          = m (the (parseTransId ''UPDATE trans SET amount = 5 WHERE trans_id = 42'')))
 \<and> (\<forall>m :: nat \<rightharpoonup> marker. (m(7 := None))
            (the (parseTransId ''UPDATE trans SET amount = 5 WHERE trans_id = 42''))
          = m (the (parseTransId ''UPDATE trans SET amount = 5 WHERE trans_id = 42'')))
 \<and> activeTransactions (snd (execute_among quiet
        (\<lambda>m. m(7 \<mapsto> \<lparr>owner = ''node1'', startTime = 1000\<rparr>)) (\<lambda>m. m(7 := None)) ''node0''
        ''UPDATE trans SET amount = 5 WHERE trans_id = 42'' None sample_server))
      (the (parseTransId ''UPDATE trans SET amount = 5 WHERE trans_id = 42'')) = None
 \<and> activeTransactions (snd (execute_try_among quiet
        (\<lambda>m. m(7 \<mapsto> \<lparr>owner = ''node1'', startTime = 1000\<rparr>)) (\<lambda>m. m(7 := None)) ''node0''
        ''UPDATE trans SET amount = 5 WHERE trans_id = 42'' ''READ_COMMITTED'' sample_server))
      (the (parseTransId ''UPDATE trans SET amount = 5 WHERE trans_id = 42''))
     = Some \<lparr>owner = ''node0'', startTime = 1000\<rparr>
 \<and> replicationQueue (snd (execute_try_among quiet
        (\<lambda>m. m(7 \<mapsto> \<lparr>owner = ''node1'', startTime = 1000\<rparr>)) (\<lambda>m. m(7 := None)) ''node0''
        ''UPDATE trans SET amount = 5 WHERE trans_id = 42'' ''READ_COMMITTED'' sample_server))
     = replicationQueue sample_server
       @ [\<lparr>entry_id = 0, source = ''node0'', target = ''node1'',
           query = ''UPDATE trans SET amount = 5 WHERE trans_id = 42'',
           status = Replicated, error = None, time = 1000, recoveryTime = None\<rparr>]"
proof -
  let ?q = "''UPDATE trans SET amount = 5 WHERE trans_id = 42''"
  let ?f = "\<lambda>m :: nat \<rightharpoonup> marker. m(7 \<mapsto> \<lparr>owner = ''node1'', startTime = 1000\<rparr>)"
  let ?g = "\<lambda>m :: nat \<rightharpoonup> marker. m(7 := None)"
  have t: "truthy (parseTransId ?q)" by (simp add: parse_update_42 truthy_def)
  have f: "\<not> simulatedFailures sample_server ''node0''" by (simp add: sample_defs)
  have h1: "\<forall>m. ?f m (the (parseTransId ?q)) = m (the (parseTransId ?q))"
    by (simp add: parse_update_42)
  have h2: "\<forall>m. ?g m (the (parseTransId ?q)) = m (the (parseTransId ?q))"
    by (simp add: parse_update_42)
  note main = marker_released_after_replication [OF write_samples(1) t,
                where node = "''node0''" and s = sample_server and sched = quiet
                  and at_query = ?f and at_replication = ?g and lvl = None
                  and lvl' = "''READ_COMMITTED''"]
  have a: "activeTransactions (snd (execute_among quiet ?f ?g ''node0'' ?q None sample_server))
             (the (parseTransId ?q)) = None"
    using main known_nodes(1) f by blast
  have b: "activeTransactions (snd (execute_try_among quiet ?f ?g ''node0'' ?q ''READ_COMMITTED''
                                      sample_server))
             (the (parseTransId ?q)) = Some \<lparr>owner = ''node0'', startTime = 1000\<rparr>
         \<and> replicationQueue (snd (execute_try_among quiet ?f ?g ''node0'' ?q ''READ_COMMITTED''
                                      sample_server))
             = replicationQueue sample_server
               @ [\<lparr>entry_id = 0, source = ''node0'', target = ''node1'', query = ?q,
                   status = Replicated, error = None, time = 1000, recoveryTime = None\<rparr>]"
    using main [THEN conjunct2, THEN conjunct1] write_42_among_others h1 h2
    by (auto split: prod.splits sum.splits)
  show ?thesis using write_samples(1) t known_nodes(1) f h1 h2 a b by simp
qed


lemma execute_try_without_key:
  assumes "parseTransId qry = None"
  shows "execute_try sched node qry lvl' s =
     (case getConnection node s of
        (Some msg, s1) \<Rightarrow> (Inl (StoreError msg), s1)
      | (None, s1) \<Rightarrow>
          (case conn_query node qry s1 of
             (Inl msg, s4) \<Rightarrow> (Inl (StoreError msg), s4)
           | (Inr results, s4) \<Rightarrow>
               (Inr (results, fst (replicateWrite node qry s4)),
                snd (replicateWrite node qry s4))))"
  using assms
  by (simp add: execute_try_def Let_def truthy_def split_beta
           split: prod.splits option.splits sum.splits)

lemma execute_try_without_key_frame:
  assumes "parseTransId qry = None"
  shows "activeTransactions (snd (execute_try sched node qry lvl' s)) = activeTransactions s
       \<and> now (snd (execute_try sched node qry lvl' s)) = now s
       \<and> (case fst (execute_try sched node qry lvl' s) of
             Inl (StoreError msg) \<Rightarrow> True
           | Inl (LockTimeout k) \<Rightarrow> False
           | Inl (ReadTimeout l) \<Rightarrow> False
           | Inr x \<Rightarrow> True)"
proof -
  obtain c s1 where g: "getConnection node s = (c, s1)" by (cases "getConnection node s")
  obtain r s4 where q: "conn_query node qry s1 = (r, s4)" by (cases "conn_query node qry s1")
  have a: "activeTransactions s1 = activeTransactions s \<and> now s1 = now s"
    using getConnection_eq [OF g] by auto
  have b: "activeTransactions s4 = activeTransactions s1 \<and> now s4 = now s1"
    using conn_query_eq [OF q] by auto
  show ?thesis
    unfolding execute_try_without_key [OF assms]
    using g q a b replicateWrite_frame(1,4) [of node qry s4]
    by (cases c; cases r) simp_all
qed

text \<open>
  Claim C10. When \<open>parseTransId\<close> gives \<open>null\<close> for the query text, the handler's
  result does not depend on the schedule, the clock and the markers are those of the
  start, and the operation can only fail with an error of the store.
\<close>

theorem execute_without_key:
  assumes "parseTransId qry = None"
  shows "execute sched node qry lvl s = execute sched2 node qry lvl s
       \<and> activeTransactions (snd (execute sched node qry lvl s)) = activeTransactions s
       \<and> now (snd (execute sched node qry lvl s)) = now s
       \<and> (case fst (execute sched node qry lvl s) of
             Errored tid (LockTimeout k) le \<Rightarrow> False
           | Errored tid (ReadTimeout l) le \<Rightarrow> False
           | Errored tid (StoreError msg) le \<Rightarrow> True
           | Succeeded tid res rep le \<Rightarrow> True
           | Invalid_node \<Rightarrow> True
           | Node_offline n tid \<Rightarrow> True)"
proof -
  have eq: "execute_try sched node qry = execute_try sched2 node qry"
    by (intro ext) (simp add: execute_try_without_key [OF assms])
  have e: "execute sched node qry lvl s = execute sched2 node qry lvl s"
    unfolding execute_def eq by (rule refl)
  show ?thesis
  proof (cases "known_node node \<and> \<not> simulatedFailures s node")
    case False
    then have "activeTransactions (snd (execute sched node qry lvl s)) = activeTransactions s
       \<and> now (snd (execute sched node qry lvl s)) = now s
       \<and> (fst (execute sched node qry lvl s) = Invalid_node
           \<or> fst (execute sched node qry lvl s) = Node_offline node (uuids s))"
      by (auto simp: execute_def uuidv4_def)
    then show ?thesis using e by auto
  next
    case True
    obtain x s1 where t: "execute_try sched node qry (effective_isolation lvl)
                          (s\<lparr>uuids := Suc (uuids s)\<rparr>) = (x, s1)"
      by (cases "execute_try sched node qry (effective_isolation lvl) (s\<lparr>uuids := Suc (uuids s)\<rparr>)")
    have fr: "activeTransactions s1 = activeTransactions s \<and> now s1 = now s
       \<and> (case x of
             Inl (StoreError msg) \<Rightarrow> True
           | Inl (LockTimeout k) \<Rightarrow> False
           | Inl (ReadTimeout l) \<Rightarrow> False
           | Inr y \<Rightarrow> True)"
      using execute_try_without_key_frame [OF assms, of sched node "effective_isolation lvl"
              "s\<lparr>uuids := Suc (uuids s)\<rparr>"] t
      by simp
    have nt: "\<not> truthy (parseTransId qry)" using assms by (simp add: truthy_def)
    have "activeTransactions (snd (execute sched node qry lvl s)) = activeTransactions s
       \<and> now (snd (execute sched node qry lvl s)) = now s
       \<and> (case fst (execute sched node qry lvl s) of
             Errored tid (LockTimeout k) le \<Rightarrow> False
           | Errored tid (ReadTimeout l) le \<Rightarrow> False
           | Errored tid (StoreError msg) le \<Rightarrow> True
           | Succeeded tid res rep le \<Rightarrow> True
           | Invalid_node \<Rightarrow> True
           | Node_offline n tid \<Rightarrow> True)"
      unfolding execute_admitted [OF conjunct1 [OF True] conjunct2 [OF True] t]
      using fr nt
      by (cases x) (auto split: prod.splits failure.splits)
    then show ?thesis using e by blast
  qed
qed

lemma parse_select_all: "parseTransId ''SELECT * FROM trans'' = None"
  by (simp add: text_defs)

theorem execute_without_key_witness:
  "parseTransId ''INSERT INTO trans VALUES (7, 1, 2, 3, 4)'' = None
 \<and> parseTransId ''SELECT * FROM trans'' = None
 \<and> execute stalled ''node0'' ''INSERT INTO trans VALUES (7, 1, 2, 3, 4)'' None held_server
     = execute quiet ''node0'' ''INSERT INTO trans VALUES (7, 1, 2, 3, 4)'' None held_server
 \<and> activeTransactions (snd (execute stalled ''node0''
        ''INSERT INTO trans VALUES (7, 1, 2, 3, 4)'' None held_server))
     = activeTransactions held_server
 \<and> now (snd (execute stalled ''node1'' ''SELECT * FROM trans'' (Some ''SERIALIZABLE'')
        held_server)) = now held_server"
  using execute_without_key [OF parse_insert, of stalled "''node0''" None held_server quiet]
        execute_without_key [OF parse_select_all, of stalled "''node1''" "Some ''SERIALIZABLE''" held_server quiet]
        parse_insert parse_select_all
  by blast


section \<open>Replay and the statuses of the ledger\<close>


























lemma scenario_C:
  "replicationQueue (snd (replayFailedReplications ''node1'' (after_outage all_up)))
     = [missed_entry\<lparr>status := Replicated, recoveryTime := Some 2000, error := None\<rparr>]
 \<and> sent (pools (snd (replayFailedReplications ''node1'' (after_outage all_up))) ''node1'')
     = [''UPDATE trans SET amount = 5 WHERE trans_id = 42'']
 \<and> r_success (fst (replayFailedReplications ''node1'' (after_outage all_up))) = 1
 \<and> r_failed (fst (replayFailedReplications ''node1'' (after_outage all_up))) = 0"
  by (simp add: replayFailedReplications_def failedReplications_def replay_entry_def
        store_defs Let_def outage_defs)













lemma failed_then_replayed:
  "map status (replicationQueue (ledger_run
       [ReplicateWrite ''node0'' ''UPDATE trans SET amount = 5 WHERE trans_id = 42'']
       node1_killed)) = [Failed]
 \<and> map status (replicationQueue (ledger_run
       [ReplicateWrite ''node0'' ''UPDATE trans SET amount = 5 WHERE trans_id = 42'',
        Replay ''node1'']
       node1_killed)) = [Replicated]"
  by (simp add: replicateWrite_def Let_def write_samples [unfolded isWriteQuery_def Let_def]
        parse_update_42 fetch_record_date_def truthy_def store_defs replication_targets_def
        FRAG_BOUNDARY_def replicate_to_def node1_killed_def sample_defs
        replayFailedReplications_def failedReplications_def replay_entry_def)

section \<open>Releases of a marker held by another request\<close>

text \<open>
  The handler calls \<open>commitTransaction\<close> whenever the query text has a key, on both
  paths and for reads as well as writes, and \<open>commitTransaction\<close> deletes whatever
  marker the key has. Two runs on the state in which \<open>node0\<close> holds the marker of
  record 42: a write that gives up with the lock timeout, and a read under
  \<open>READ_UNCOMMITTED\<close>, each leave the key without a marker.
\<close>


lemma lock_timeout_clears_holders_marker:
  "activeTransactions held_server 42 = Some \<lparr>owner = ''node0'', startTime = 900\<rparr>
 \<and> (case fst (execute stalled ''node1'' ''UPDATE trans SET amount = 5 WHERE trans_id = 42'' None
               held_server) of
       Errored tid f le \<Rightarrow> f = LockTimeout 42
     | Succeeded tid res rep le \<Rightarrow> False
     | Invalid_node \<Rightarrow> False
     | Node_offline n tid \<Rightarrow> False)
 \<and> activeTransactions (snd (execute stalled ''node1''
        ''UPDATE trans SET amount = 5 WHERE trans_id = 42'' None held_server)) 42 = None"
  by (simp add: execute_def execute_try_def known_nodes Let_def write_samples
        parse_update_42 truthy_def startTransaction_def commitTransaction_def
        effective_isolation_def store_defs startTransaction_wait.simps
        TRANSACTION_TIMEOUT_def sched_defs sample_defs)

lemma dirty_read_clears_writers_marker:
  "activeTransactions held_server 42 = Some \<lparr>owner = ''node0'', startTime = 900\<rparr>
 \<and> (case fst (execute quiet ''node1'' ''SELECT * FROM trans WHERE trans_id = 42''
               (Some ''READ_UNCOMMITTED'') held_server) of
       Succeeded tid res rep le \<Rightarrow> rep = []
     | Errored tid f le \<Rightarrow> False
     | Invalid_node \<Rightarrow> False
     | Node_offline n tid \<Rightarrow> False)
 \<and> activeTransactions (snd (execute quiet ''node1''
        ''SELECT * FROM trans WHERE trans_id = 42'' (Some ''READ_UNCOMMITTED'') held_server)) 42
     = None"
  by (simp add: execute_def execute_try_def known_nodes Let_def write_samples
        parse_select_42 truthy_def canReadProceed_def commitTransaction_def
        effective_isolation_def store_defs replicateWrite_def
        write_samples [unfolded isWriteQuery_def Let_def]
        sched_defs sample_defs)

text \<open>
  The same release reaches a write in the middle of its own work: when another request
  deletes the marker of record 42 while the write awaits its statement, the write
  replicates with no marker on its record.
\<close>

lemma marker_removed_by_another_request:
  "fst (execute_try_among quiet (\<lambda>m. m(42 := None)) (\<lambda>m. m) ''node0''
          ''UPDATE trans SET amount = 5 WHERE trans_id = 42'' ''READ_COMMITTED'' sample_server)
     = Inr ([], [\<lparr>entry_id = 0, source = ''node0'', target = ''node1'',
                 query = ''UPDATE trans SET amount = 5 WHERE trans_id = 42'',
                 status = Replicated, error = None, time = 1000, recoveryTime = None\<rparr>])
 \<and> activeTransactions (snd (execute_try_among quiet (\<lambda>m. m(42 := None)) (\<lambda>m. m) ''node0''
          ''UPDATE trans SET amount = 5 WHERE trans_id = 42'' ''READ_COMMITTED'' sample_server)) 42
     = None"
  by (simp add: execute_try_among_def interfere_def Let_def write_samples
          parse_update_42 truthy_def startTransaction_def replicateWrite_def
          write_samples [unfolded isWriteQuery_def Let_def]
          fetch_record_date_def store_defs replication_targets_def FRAG_BOUNDARY_def
          replicate_to_def sample_defs)

end
